theory Spec2Isabelle
  imports Complex_Main
begin

section \<open>JavaScript values\<close>

text \<open>
  A JavaScript string is modelled by the list of its Unicode code points. Every string
  operation the program uses (\<^verbatim>\<open>trim\<close>, \<^verbatim>\<open>split\<close>, \<^verbatim>\<open>toUpperCase\<close>,
  \<^verbatim>\<open>endsWith\<close>, \<^verbatim>\<open>slice(0, -1)\<close> after \<^verbatim>\<open>endsWith('.')\<close>, \<^verbatim>\<open>===\<close>)
  gives the same result on code points as on UTF-16 code units. \<open>js\<close> writes an ASCII
  literal.
\<close>

type_synonym jstring = "nat list"

definition js :: "string \<Rightarrow> jstring" where
  "js s = map of_char s"

text \<open>
  A JavaScript number. Finite values are exact rationals: rounding to the nearest double,
  overflow and the sign of zero are not modelled. \<open>NotANumber\<close> is \<^verbatim>\<open>NaN\<close>; it also
  stands for a value that is no number at all and converts to \<^verbatim>\<open>NaN\<close>, such as the
  string that \<^verbatim>\<open>+\<close> builds from a number and a function object. Every arithmetic
  operator of the program that meets such an operand yields such a value again.
\<close>

datatype jsnum = Num rat | PInf | NInf | NotANumber

fun js_plus :: "jsnum \<Rightarrow> jsnum \<Rightarrow> jsnum" where
  "js_plus (Num a) (Num b) = Num (a + b)"
| "js_plus NotANumber y = NotANumber"
| "js_plus x NotANumber = NotANumber"
| "js_plus PInf NInf = NotANumber"
| "js_plus NInf PInf = NotANumber"
| "js_plus PInf y = PInf"
| "js_plus x PInf = PInf"
| "js_plus NInf y = NInf"
| "js_plus x NInf = NInf"

fun js_negate :: "jsnum \<Rightarrow> jsnum" where
  "js_negate (Num a) = Num (- a)"
| "js_negate PInf = NInf"
| "js_negate NInf = PInf"
| "js_negate NotANumber = NotANumber"

definition js_minus :: "jsnum \<Rightarrow> jsnum \<Rightarrow> jsnum" where
  "js_minus x y = js_plus x (js_negate y)"

fun js_times :: "jsnum \<Rightarrow> jsnum \<Rightarrow> jsnum" where
  "js_times (Num a) (Num b) = Num (a * b)"
| "js_times NotANumber y = NotANumber"
| "js_times x NotANumber = NotANumber"
| "js_times (Num a) PInf = (if a = 0 then NotANumber else if 0 < a then PInf else NInf)"
| "js_times (Num a) NInf = (if a = 0 then NotANumber else if 0 < a then NInf else PInf)"
| "js_times PInf (Num b) = (if b = 0 then NotANumber else if 0 < b then PInf else NInf)"
| "js_times NInf (Num b) = (if b = 0 then NotANumber else if 0 < b then NInf else PInf)"
| "js_times PInf PInf = PInf"
| "js_times NInf NInf = PInf"
| "js_times PInf NInf = NInf"
| "js_times NInf PInf = NInf"

fun js_divide :: "jsnum \<Rightarrow> jsnum \<Rightarrow> jsnum" where
  "js_divide (Num a) (Num b) =
     (if b = 0 then (if a = 0 then NotANumber else if 0 < a then PInf else NInf)
      else Num (a / b))"
| "js_divide NotANumber y = NotANumber"
| "js_divide x NotANumber = NotANumber"
| "js_divide (Num a) PInf = Num 0"
| "js_divide (Num a) NInf = Num 0"
| "js_divide PInf (Num b) = (if 0 \<le> b then PInf else NInf)"
| "js_divide NInf (Num b) = (if 0 \<le> b then NInf else PInf)"
| "js_divide PInf y = NotANumber"
| "js_divide NInf y = NotANumber"

text \<open>\<^verbatim>\<open>Math.floor\<close>.\<close>

fun js_floor :: "jsnum \<Rightarrow> jsnum" where
  "js_floor (Num a) = Num (of_int \<lfloor>a\<rfloor>)"
| "js_floor x = x"

text \<open>The relational operator \<^verbatim>\<open>a > b\<close>: false as soon as an operand is \<^verbatim>\<open>NaN\<close>.\<close>

fun js_gt :: "jsnum \<Rightarrow> jsnum \<Rightarrow> bool" where
  "js_gt (Num a) (Num b) = (b < a)"
| "js_gt NotANumber y = False"
| "js_gt x NotANumber = False"
| "js_gt PInf PInf = False"
| "js_gt PInf y = True"
| "js_gt x NInf = (x \<noteq> NInf)"
| "js_gt x PInf = False"
| "js_gt NInf y = False"

definition js_lt :: "jsnum \<Rightarrow> jsnum \<Rightarrow> bool" where
  "js_lt x y = js_gt y x"

text \<open>\<^verbatim>\<open>Math.min\<close> and \<^verbatim>\<open>Math.max\<close> of two arguments.\<close>

fun js_min :: "jsnum \<Rightarrow> jsnum \<Rightarrow> jsnum" where
  "js_min NotANumber y = NotANumber"
| "js_min x NotANumber = NotANumber"
| "js_min x y = (if js_gt x y then y else x)"

fun js_max :: "jsnum \<Rightarrow> jsnum \<Rightarrow> jsnum" where
  "js_max NotANumber y = NotANumber"
| "js_max x NotANumber = NotANumber"
| "js_max x y = (if js_gt y x then y else x)"

text \<open>
  The integer conversions: truncation towards zero, then reduction modulo a power of two;
  a value that is not finite converts to 0.
\<close>

definition js_truncate :: "rat \<Rightarrow> int" where
  "js_truncate x = (if 0 \<le> x then \<lfloor>x\<rfloor> else \<lceil>x\<rceil>)"

fun to_uint32 :: "jsnum \<Rightarrow> nat" where
  "to_uint32 (Num x) = nat (js_truncate x mod 2 ^ 32)"
| "to_uint32 x = 0"

fun to_int32 :: "jsnum \<Rightarrow> int" where
  "to_int32 (Num x) = (js_truncate x + 2 ^ 31) mod 2 ^ 32 - 2 ^ 31"
| "to_int32 x = 0"

fun to_int16 :: "jsnum \<Rightarrow> int" where
  "to_int16 (Num x) = (js_truncate x + 2 ^ 15) mod 2 ^ 16 - 2 ^ 15"
| "to_int16 x = 0"

subsection \<open>Property lookup on an object literal\<close>

text \<open>
  \<^verbatim>\<open>obj[key]\<close> on an object literal finds the literal's own properties and, for any other
  key, the members the literal inherits from \<^verbatim>\<open>Object.prototype\<close> (functions, and the
  prototype object itself for \<^verbatim>\<open>__proto__\<close>); otherwise it is \<^verbatim>\<open>undefined\<close>, here
  \<open>None\<close>.
\<close>

datatype 'a property = Own 'a | Inherited

definition Object_prototype_members :: "jstring list" where
  "Object_prototype_members =
     [js ''constructor'', js ''hasOwnProperty'', js ''isPrototypeOf'',
      js ''propertyIsEnumerable'', js ''toLocaleString'', js ''toString'', js ''valueOf'',
      js ''__proto__'', js ''__defineGetter__'', js ''__defineSetter__'',
      js ''__lookupGetter__'', js ''__lookupSetter__'']"

definition js_get :: "(jstring \<rightharpoonup> 'a) \<Rightarrow> jstring \<Rightarrow> 'a property option" where
  "js_get obj key =
     (case obj key of
        Some v \<Rightarrow> Some (Own v)
      | None \<Rightarrow> if key \<in> set Object_prototype_members then Some Inherited else None)"

subsection \<open>String operations\<close>

text \<open>
  White space and line terminators of ECMAScript, as \<^verbatim>\<open>trim\<close> and the regular
  expression class \<^verbatim>\<open>\s\<close> read them.
\<close>

definition isWhiteSpace :: "nat \<Rightarrow> bool" where
  "isWhiteSpace c \<longleftrightarrow>
     c \<in> set [9, 10, 11, 12, 13, 32, 160, 5760, 8232, 8233, 8239, 8287, 12288, 65279]
     \<or> (8192 \<le> c \<and> c \<le> 8202)"

definition trim :: "jstring \<Rightarrow> jstring" where
  "trim s = rev (dropWhile isWhiteSpace (rev (dropWhile isWhiteSpace s)))"

text \<open>\<^verbatim>\<open>s.split(sep)\<close> for a one-character separator; \<open>cur\<close> is the piece being read.\<close>

fun split_on :: "nat \<Rightarrow> jstring \<Rightarrow> jstring \<Rightarrow> jstring list" where
  "split_on sep cur [] = [cur]"
| "split_on sep cur (c # cs) =
     (if c = sep then cur # split_on sep [] cs else split_on sep (cur @ [c]) cs)"

text \<open>
  \<^verbatim>\<open>s.split(/\s+/)\<close>: \<open>insep\<close> says that the characters just read were a separator.
\<close>

fun split_ws :: "bool \<Rightarrow> jstring \<Rightarrow> jstring \<Rightarrow> jstring list" where
  "split_ws insep cur [] = [cur]"
| "split_ws insep cur (c # cs) =
     (if isWhiteSpace c
      then (if insep then split_ws True cur cs else cur # split_ws True [] cs)
      else split_ws False (cur @ [c]) cs)"

text \<open>
  \<^verbatim>\<open>toUpperCase\<close> maps each code point on its own. \<open>uc\<close> is the upper-case mapping of
  the Unicode tables for the code points outside ASCII, which the platform supplies.
\<close>

definition toUpperCase :: "(nat \<Rightarrow> jstring) \<Rightarrow> jstring \<Rightarrow> jstring" where
  "toUpperCase uc s =
     concat (map (\<lambda>c. if 97 \<le> c \<and> c \<le> 122 then [c - 32] else if c < 128 then [c] else uc c) s)"

fun join_space :: "jstring list \<Rightarrow> jstring" where
  "join_space [] = []"
| "join_space [x] = x"
| "join_space (x # y # ys) = x @ [32] @ join_space (y # ys)"

text \<open>The decimal digits of an array index, as a template literal prints them.\<close>

function decimal :: "nat \<Rightarrow> jstring" where
  "decimal n = (if n < 10 then [48 + n] else decimal (n div 10) @ [48 + n mod 10])"
  by pat_completeness auto
termination
  by (relation "measure (\<lambda>n. n)") auto

declare decimal.simps [simp del]

definition isDigit :: "nat \<Rightarrow> bool" where
  "isDigit c \<longleftrightarrow> 48 \<le> c \<and> c \<le> 57"

text \<open>The test \<^verbatim>\<open>/^\d+(\.\d+)?$/.test(s)\<close>.\<close>

definition matches_number :: "jstring \<Rightarrow> bool" where
  "matches_number s =
     (takeWhile isDigit s \<noteq> [] \<and>
      (case dropWhile isDigit s of
         [] \<Rightarrow> True
       | d # fp \<Rightarrow> d = 46 \<and> fp \<noteq> [] \<and> list_all isDigit fp))"

definition digits_value :: "jstring \<Rightarrow> nat" where
  "digits_value ds = foldl (\<lambda>n c. 10 * n + (c - 48)) 0 ds"

text \<open>\<^verbatim>\<open>parseFloat\<close> on a string that passed the test above: its decimal value.\<close>

definition parseFloat :: "jstring \<Rightarrow> rat" where
  "parseFloat s =
     (let ip = takeWhile isDigit s; fp = drop (length ip + 1) s
      in of_nat (digits_value ip) + of_nat (digits_value fp) / 10 ^ length fp)"

section \<open>The tablature parser (src/utils/parser.ts)\<close>

text \<open>
  Modelled from the spec: the tick constants that parser.ts imports from the module
  \<^verbatim>\<open>../types\<close>, which is not among the sources. The spec's tick model and the
  comments beside their uses give the values.
\<close>

definition TICKS_QUARTER :: rat where "TICKS_QUARTER = 12"
definition TICKS_EIGHTH :: rat where "TICKS_EIGHTH = 6"
definition TICKS_TRIPLET :: rat where "TICKS_TRIPLET = 4"
definition TICKS_SIXTEENTH :: rat where "TICKS_SIXTEENTH = 3"

text \<open>
  The symbols are \<open>+\<close>, U+266A (code point 9834), U+1F3B6 (127926), U+266C (9836),
  \<open>w\<close> and \<open>h\<close>.
\<close>

definition SYMBOLS_DURATION :: "(jstring \<times> rat) list" where
  "SYMBOLS_DURATION =
     [(js ''+'', TICKS_QUARTER), ([9834], TICKS_EIGHTH), ([127926], TICKS_TRIPLET),
      ([9836], TICKS_SIXTEENTH), (js ''w'', 48), (js ''h'', 24)]"

definition AUTOMATIC_FINGERING :: "(jstring \<times> jstring) list" where
  "AUTOMATIC_FINGERING =
     [(js ''1G'', js ''P''), (js ''2G'', js ''P''), (js ''3G'', js ''P''),
      (js ''1D'', js ''P''), (js ''2D'', js ''P''), (js ''3D'', js ''P''),
      (js ''4G'', js ''I''), (js ''5G'', js ''I''), (js ''6G'', js ''I''),
      (js ''4D'', js ''I''), (js ''5D'', js ''I''), (js ''6D'', js ''I'')]"

text \<open>
  The objects the parser pushes. A field an object literal leaves out is \<open>None\<close>
  (\<open>False\<close> for \<open>isPageBreak\<close>). The field \<^verbatim>\<open>id\<close> is \<open>note_id\<close> here.
\<close>

record ParsedNote =
  note_id :: jstring
  tick :: jsnum
  duration :: jsnum
  stringId :: jstring
  message :: "jstring option"
  isPageBreak :: bool
  doigt :: "jstring property option"
  lineIndex :: nat

text \<open>
  The value of a looked-up duration where the program uses it as a number: an inherited
  member is a function or an object, which converts to \<^verbatim>\<open>NaN\<close> and which \<^verbatim>\<open>+\<close>
  turns into a string.
\<close>

fun duration_value :: "rat property \<Rightarrow> jsnum" where
  "duration_value (Own v) = Num v"
| "duration_value Inherited = NotANumber"

text \<open>Whether a looked-up duration is truthy.\<close>

fun truthy :: "rat property option \<Rightarrow> bool" where
  "truthy None = False"
| "truthy (Some (Own v)) = (v \<noteq> 0)"
| "truthy (Some Inherited) = True"

definition endsWith_dot :: "jstring \<Rightarrow> bool" where
  "endsWith_dot s \<longleftrightarrow> s \<noteq> [] \<and> last s = 46"

text \<open>
  Lines 37 to 61, the detection of the delta: the cursor as the \<open>=\<close> branch leaves it,
  and \<open>thisDelta\<close>.
\<close>

definition detect_delta :: "jstring \<Rightarrow> jsnum \<Rightarrow> ParsedNote list \<Rightarrow> jsnum \<times> jsnum" where
  "detect_delta col1 currentTick data =
     (if col1 = js ''='' then
        ((if length data > 0 then tick (data ! (length data - 1)) else currentTick), Num 0)
      else if matches_number col1 then (currentTick, Num (parseFloat col1))
      else (case js_get (map_of SYMBOLS_DURATION) col1 of
        Some p \<Rightarrow> (currentTick, duration_value p)
      | None \<Rightarrow>
          if endsWith_dot col1 \<and> truthy (js_get (map_of SYMBOLS_DURATION) (butlast col1))
          then (currentTick,
                js_floor (js_times (duration_value (the (js_get (map_of SYMBOLS_DURATION) (butlast col1))))
                                   (Num (3 / 2))))
          else (currentTick, Num 12)))"

text \<open>
  Lines 68 to 119, the content of the line: the object it pushes, \<open>None\<close> for a silence.
\<close>

definition content :: "(nat \<Rightarrow> jstring) \<Rightarrow> nat \<Rightarrow> jstring list \<Rightarrow> jsnum \<Rightarrow> ParsedNote option" where
  "content uc index parts noteTick =
     (let stringCode = toUpperCase uc (parts ! 1) in
      if stringCode = js ''TXT'' then
        Some \<lparr>note_id = js ''txt-'' @ decimal index, tick = noteTick, duration = Num 0,
              stringId = js ''TEXTE'', message = Some (join_space (drop 2 parts)),
              isPageBreak = False, doigt = None, lineIndex = index\<rparr>
      else if stringCode = js ''PAGE'' then
        Some \<lparr>note_id = js ''pg-'' @ decimal index, tick = noteTick, duration = Num 0,
              stringId = js ''PAGE_BREAK'', message = None,
              isPageBreak = True, doigt = None, lineIndex = index\<rparr>
      else if stringCode = js ''S'' \<or> stringCode = js ''SILENCE'' \<or> stringCode = js ''SEP'' then
        None
      else
        (let doigt0 = (case js_get (map_of AUTOMATIC_FINGERING) stringCode of
                         Some (Own v) \<Rightarrow> if v \<noteq> [] then Own v else Own (js ''P'')
                       | Some Inherited \<Rightarrow> Inherited
                       | None \<Rightarrow> Own (js ''P''));
             doigt1 = (if length parts > 2 then
                         (let p3 = toUpperCase uc (parts ! 2)
                          in if p3 = js ''I'' \<or> p3 = js ''P'' then Own p3 else doigt0)
                       else doigt0)
         in Some \<lparr>note_id = js ''note-'' @ decimal index, tick = noteTick, duration = Num 0,
                   stringId = stringCode, message = None,
                   isPageBreak = False, doigt = Some doigt1, lineIndex = index\<rparr>))"

text \<open>
  The body of \<^verbatim>\<open>lines.forEach((line, index) => ...)\<close> on the state it mutates: the
  cursor \<open>currentTick\<close> and the array \<open>data\<close>.
\<close>

definition line_parts :: "jstring \<Rightarrow> jstring list" where
  "line_parts line = split_ws False [] (trim line)"

definition parse_line ::
  "(nat \<Rightarrow> jstring) \<Rightarrow> nat \<Rightarrow> jstring \<Rightarrow> jsnum \<times> ParsedNote list \<Rightarrow> jsnum \<times> ParsedNote list" where
  "parse_line uc index line st =
     (let parts = line_parts line in
      if length parts < 2 then st
      else
        (let col1 = parts ! 0;
             (currentTick, thisDelta) = detect_delta col1 (fst st) (snd st);
             noteTick = js_plus currentTick thisDelta
         in (noteTick,
             case content uc index parts noteTick of
               None \<Rightarrow> snd st
             | Some e \<Rightarrow> snd st @ [e])))"

fun forEach_lines ::
  "(nat \<Rightarrow> jstring) \<Rightarrow> nat \<Rightarrow> jstring list \<Rightarrow> jsnum \<times> ParsedNote list \<Rightarrow> jsnum \<times> ParsedNote list" where
  "forEach_lines uc index [] st = st"
| "forEach_lines uc index (line # rest) st =
     forEach_lines uc (Suc index) rest (parse_line uc index line st)"

text \<open>
  \<^verbatim>\<open>data.sort((a, b) => a.tick - b.tick)\<close>. The comparator's result places \<open>a\<close> after
  \<open>b\<close> when it is positive; \<^verbatim>\<open>NaN\<close> counts as zero. \<^verbatim>\<open>Array.prototype.sort\<close> is a
  stable sort, here insertion from the right. Where the comparator is not consistent
  (a tick that is no number compares equal to everything) ECMAScript leaves the order
  to the implementation.
\<close>

definition placed_after :: "ParsedNote \<Rightarrow> ParsedNote \<Rightarrow> bool" where
  "placed_after a b = js_gt (js_minus (tick a) (tick b)) (Num 0)"

fun insert_sorted :: "ParsedNote \<Rightarrow> ParsedNote list \<Rightarrow> ParsedNote list" where
  "insert_sorted a [] = [a]"
| "insert_sorted a (b # bs) =
     (if placed_after a b then b # insert_sorted a bs else a # b # bs)"

definition js_sort :: "ParsedNote list \<Rightarrow> ParsedNote list" where
  "js_sort data = foldr insert_sorted data []"

definition parseTablature :: "(nat \<Rightarrow> jstring) \<Rightarrow> jstring \<Rightarrow> ParsedNote list" where
  "parseTablature uc text =
     (if text = [] then []
      else js_sort (snd (forEach_lines uc 0 (split_on 10 [] (trim text)) (Num 0, []))))"

subsection \<open>Notions used in the statements about the parser\<close>

text \<open>
  The state of the loop after the lines \<open>ls\<close>: the cursor and the events pushed so far.
\<close>

definition run_lines :: "(nat \<Rightarrow> jstring) \<Rightarrow> jstring list \<Rightarrow> jsnum \<times> ParsedNote list" where
  "run_lines uc ls = forEach_lines uc 0 ls (Num 0, [])"

text \<open>Lines 65 and 66: \<open>noteTick\<close>, which is also the new cursor.\<close>

definition new_tick :: "jstring \<Rightarrow> jsnum \<Rightarrow> ParsedNote list \<Rightarrow> jsnum" where
  "new_tick col1 c d = js_plus (fst (detect_delta col1 c d)) (snd (detect_delta col1 c d))"

text \<open>The test of line 99 on the fields of a line.\<close>

definition is_silence :: "(nat \<Rightarrow> jstring) \<Rightarrow> jstring list \<Rightarrow> bool" where
  "is_silence uc parts \<longleftrightarrow>
     toUpperCase uc (parts ! 1) \<in> {js ''S'', js ''SILENCE'', js ''SEP''}"

text \<open>
  An order on tick values for the invariants of the loop: the numbers in their order,
  and every value before a value that is not a number.
\<close>

fun tick_le :: "jsnum \<Rightarrow> jsnum \<Rightarrow> bool" where
  "tick_le x NotANumber = True"
| "tick_le NotANumber y = False"
| "tick_le x y = (\<not> js_gt x y)"

definition nonneg_delta :: "jsnum \<Rightarrow> bool" where
  "nonneg_delta d \<longleftrightarrow> d = NotANumber \<or> (\<exists>q. d = Num q \<and> 0 \<le> q)"

text \<open>The invariants of the loop.\<close>

definition ticks_inv :: "jsnum \<times> ParsedNote list \<Rightarrow> bool" where
  "ticks_inv st \<longleftrightarrow>
     (\<forall>e \<in> set (snd st). tick_le (tick e) (fst st)) \<and>
     sorted_wrt (\<lambda>a b. tick_le (tick a) (tick b)) (snd st)"

definition index_inv :: "(nat \<Rightarrow> jstring) \<Rightarrow> jstring list \<Rightarrow> ParsedNote list \<Rightarrow> bool" where
  "index_inv uc ls d \<longleftrightarrow>
     sorted_wrt (\<lambda>a b. lineIndex a < lineIndex b) d \<and>
     (\<forall>e \<in> set d. lineIndex e < length ls \<and>
        2 \<le> length (line_parts (ls ! lineIndex e)) \<and>
        content uc (lineIndex e) (line_parts (ls ! lineIndex e)) (tick e) = Some e) \<and>
     (\<forall>k < length ls. 2 \<le> length (line_parts (ls ! k)) \<and> \<not> is_silence uc (line_parts (ls ! k))
        \<longrightarrow> (\<exists>e \<in> set d. lineIndex e = k))"

section \<open>The audio engine (src/utils/audio.ts)\<close>

text \<open>
  An \<^verbatim>\<open>AudioBuffer\<close>: its sample rate, its \<^verbatim>\<open>length\<close> in sample frames (\<open>frames\<close>)
  and the data of its channels; \<^verbatim>\<open>numberOfChannels\<close> is the number of channels it holds.
  A \<^verbatim>\<open>Blob\<close> is its bytes and its type.
\<close>

record AudioBuffer =
  sampleRate :: jsnum
  frames :: nat
  channels :: "jsnum list list"

definition numberOfChannels :: "AudioBuffer \<Rightarrow> nat" where
  "numberOfChannels b = length (channels b)"

record Blob =
  blob_bytes :: "nat list"
  blob_type :: jstring

subsection \<open>bufferToWave\<close>

text \<open>The little-endian writes of the \<^verbatim>\<open>DataView\<close>, as the bytes they store.\<close>

definition setUint16 :: "jsnum \<Rightarrow> nat list" where
  "setUint16 x = (let v = to_uint32 x mod 2 ^ 16 in [v mod 256, v div 256])"

definition setUint32 :: "jsnum \<Rightarrow> nat list" where
  "setUint32 x =
     (let v = to_uint32 x in [v mod 256, v div 256 mod 256, v div 65536 mod 256, v div 16777216])"

definition setInt16 :: "int \<Rightarrow> nat list" where
  "setInt16 n = (let v = nat (n mod 2 ^ 16) in [v mod 256, v div 256])"

text \<open>
  \<^verbatim>\<open>channels[i][pos]\<close>: a read past the end is \<^verbatim>\<open>undefined\<close>, which \<^verbatim>\<open>Math.min\<close>
  converts to \<^verbatim>\<open>NaN\<close>.
\<close>

definition sample_at :: "jsnum list \<Rightarrow> nat \<Rightarrow> jsnum" where
  "sample_at ch pos = (if pos < length ch then ch ! pos else NotANumber)"

text \<open>Line 40: \<^verbatim>\<open>Math.max(-1, Math.min(1, x))\<close>.\<close>

definition clamp :: "jsnum \<Rightarrow> jsnum" where
  "clamp x = js_max (Num (- 1)) (js_min (Num 1) x)"

text \<open>
  Line 41: \<^verbatim>\<open>(0.5 + sample < 0 ? sample * 32768 : sample * 32767)|0\<close>. The operator
  \<^verbatim>\<open>+\<close> binds tighter than \<^verbatim>\<open><\<close>, so the condition is \<^verbatim>\<open>(0.5 + sample) < 0\<close>.
\<close>

definition scale_sample :: "jsnum \<Rightarrow> int" where
  "scale_sample sample =
     to_int32 (if js_lt (js_plus (Num (1 / 2)) sample) (Num 0)
               then js_times sample (Num 32768) else js_times sample (Num 32767))"

definition bufferToWave :: "AudioBuffer \<Rightarrow> nat \<Rightarrow> Blob" where
  "bufferToWave abuffer len =
     (let numOfChan = numberOfChannels abuffer;
          length = len * numOfChan * 2 + 44;
          pos = (0 :: nat);
          header =
            setUint32 (Num 0x46464952) @
            setUint32 (Num (of_nat length - 8)) @
            setUint32 (Num 0x45564157) @
            setUint32 (Num 0x20746d66) @
            setUint32 (Num 16) @
            setUint16 (Num 1) @
            setUint16 (Num (of_nat numOfChan)) @
            setUint32 (sampleRate abuffer) @
            setUint32 (js_times (js_times (sampleRate abuffer) (Num 2)) (Num (of_nat numOfChan))) @
            setUint16 (Num (of_nat numOfChan * 2)) @
            setUint16 (Num 16) @
            setUint32 (Num 0x61746164) @
            setUint32 (Num (of_nat length - of_nat pos - 4));
          data =
            concat (map (\<lambda>pos.
              concat (map (\<lambda>ch. setInt16 (scale_sample (clamp (sample_at ch pos))))
                          (channels abuffer)))
              [0..<len])
      in \<lparr>blob_bytes = header @ data, blob_type = js ''audio/wav''\<rparr>)"

subsection \<open>The engine and the platform\<close>

text \<open>
  The fields of the class \<^verbatim>\<open>AudioEngine\<close>. Of the audio context the model keeps its
  sample rate and its clock \<^verbatim>\<open>currentTime\<close>; of the nodes \<^verbatim>\<open>dest\<close> and
  \<^verbatim>\<open>prerenderedSource\<close>, whether they are set. The two callback fields hold functions
  and are left out. The field \<^verbatim>\<open>notes\<close> is \<open>notes'\<close> here.

  Modelled from the spec: the type \<^verbatim>\<open>Tuning\<close> of the module \<^verbatim>\<open>../types\<close>, which is
  not among the sources: a mapping from position identifier to note name, here the list
  of its entries in the order \<^verbatim>\<open>Object.values\<close> reads them.
\<close>

record AudioContext =
  ctx_sampleRate :: jsnum
  currentTime :: jsnum

datatype rhythm = binary | ternary

record AudioEngine =
  ctx :: "AudioContext option"
  isPlaying :: bool
  nextNoteIndex :: int
  startTime :: jsnum
  schedulerId :: "nat option"
  bpm :: jsnum
  playbackSpeed :: jsnum
  notes' :: "ParsedNote list"
  animationFrameId :: "nat option"
  currentTuning :: "(jstring \<times> jstring) list"
  isMetronomeEnabled :: bool
  nextBeatTime :: jsnum
  currentBeatIndex :: int
  rhythmMode :: rhythm
  shakerBuffer :: "AudioBuffer option"
  stringBuffers :: "jstring \<rightharpoonup> AudioBuffer"
  samplesLoaded :: bool
  dest :: bool
  prerenderedSource :: bool

datatype js_exception = TypeError | RangeError | IndexSizeError | NotSupportedError | OtherError

text \<open>
  What the engine calls and the repository does not define, as parameters:
  \<^item> \<open>resolveSample rate note\<close>: the body of the \<^verbatim>\<open>try\<close>/\<^verbatim>\<open>catch\<close> of \<^verbatim>\<open>loadSamples\<close> for
    one note name, under a context of that sample rate: the decoded file, or the buffer
    of \<^verbatim>\<open>generateFallbackBuffer\<close> when fetching or decoding fails;
  \<^item> \<open>memberText name\<close>: the string that the member of \<^verbatim>\<open>Object.prototype\<close> of that name
    converts to when it is used as a property key;
  \<^item> \<open>newOfflineAudioContext channels length rate\<close>: the constructor
    \<^verbatim>\<open>new OfflineAudioContext(...)\<close>, which may throw; \<open>'g\<close> is the state of its graph;
  \<^item> \<open>startSource g buffer gain when\<close>: lines 389 to 395, a buffer source with that
    buffer through a gain node to the destination, started at \<open>when\<close>; it may throw;
  \<^item> \<open>startRendering g\<close>: the rendered buffer, or the rejection;
  \<^item> \<open>newMp3Encoder\<close>, \<open>encodeBuffer\<close>, \<open>encoder_flush\<close>: the encoder of the library
    lamejs, \<open>'e\<close> its state.
\<close>

record ('g, 'e) platform =
  resolveSample :: "jsnum \<Rightarrow> jstring \<Rightarrow> AudioBuffer"
  memberText :: "jstring \<Rightarrow> jstring"
  newOfflineAudioContext :: "nat \<Rightarrow> jsnum \<Rightarrow> jsnum \<Rightarrow> js_exception + 'g"
  startSource :: "'g \<Rightarrow> AudioBuffer property \<Rightarrow> jsnum \<Rightarrow> jsnum \<Rightarrow> js_exception + 'g"
  startRendering :: "'g \<Rightarrow> js_exception + AudioBuffer"
  newMp3Encoder :: "nat \<Rightarrow> jsnum \<Rightarrow> nat \<Rightarrow> 'e"
  encodeBuffer :: "'e \<Rightarrow> int list \<Rightarrow> int list option \<Rightarrow> nat list \<times> 'e"
  encoder_flush :: "'e \<Rightarrow> nat list"

text \<open>\<^verbatim>\<open>Array.from(new Set(xs))\<close>: the first occurrence of each element, in order.\<close>

definition unique :: "'a list \<Rightarrow> 'a list" where
  "unique xs = rev (remdups (rev xs))"

text \<open>
  \<^verbatim>\<open>loadSamples\<close>, with every awaited promise settled before the function goes on. Each
  callback tests \<^verbatim>\<open>this.stringBuffers[note]\<close> before the first promise settles, so on
  the table as it was at the call.
\<close>

definition loadSamples :: "('g, 'e) platform \<Rightarrow> AudioEngine \<Rightarrow> AudioEngine" where
  "loadSamples P s =
     (case ctx s of
        None \<Rightarrow> s
      | Some c \<Rightarrow>
          (let tuningValues = map snd (currentTuning s);
               uniqueNotes = unique tuningValues
           in s\<lparr>stringBuffers :=
                   foldl (\<lambda>bufs note.
                            case js_get (stringBuffers s) note of
                              Some b \<Rightarrow> bufs
                            | None \<Rightarrow> bufs(note \<mapsto> resolveSample P (ctx_sampleRate c) note))
                         (stringBuffers s) uniqueNotes,
                 samplesLoaded := True\<rparr>))"

text \<open>Lines 209 to 214.\<close>

definition getCurrentTick :: "AudioEngine \<Rightarrow> jsnum" where
  "getCurrentTick s =
     (case ctx s of
        None \<Rightarrow> Num 0
      | Some c \<Rightarrow>
          if \<not> isPlaying s then Num 0
          else
            (let effectiveBpm = js_times (bpm s) (playbackSpeed s);
                 secondsPerTick = js_divide (js_divide (Num 60) effectiveBpm) (Num 12)
             in js_divide (js_minus (currentTime c) (startTime s)) secondsPerTick))"

text \<open>
  Lines 385 to 397, the body of \<^verbatim>\<open>this.notes.forEach\<close> over the notes that are left. A
  tuning entry that is an inherited member is truthy and is looked up in the buffer
  table under the string it converts to.
\<close>

fun schedule_notes ::
  "('g, 'e) platform \<Rightarrow> (jstring \<rightharpoonup> jstring) \<Rightarrow> (jstring \<rightharpoonup> AudioBuffer) \<Rightarrow> jsnum \<Rightarrow>
   ParsedNote list \<Rightarrow> 'g \<Rightarrow> js_exception + 'g" where
  "schedule_notes P tuning buffers secondsPerTick [] g = Inr g"
| "schedule_notes P tuning buffers secondsPerTick (note # rest) g =
     (let noteTime = js_times (tick note) secondsPerTick;
          noteName = js_get tuning (stringId note);
          found = (case noteName of
                     None \<Rightarrow> None
                   | Some (Own name) \<Rightarrow> if name = [] then None else js_get buffers name
                   | Some Inherited \<Rightarrow> js_get buffers (memberText P (stringId note)))
      in case found of
           None \<Rightarrow> schedule_notes P tuning buffers secondsPerTick rest g
         | Some buffer \<Rightarrow>
             (case startSource P g buffer (Num (2 / 5)) noteTime of
                Inl e \<Rightarrow> Inl e
              | Inr g' \<Rightarrow> schedule_notes P tuning buffers secondsPerTick rest g'))"

text \<open>
  \<^verbatim>\<open>renderProjectToBuffer\<close>: the value the promise settles with (\<open>Inl\<close> a rejection,
  \<open>Inr None\<close> the value \<^verbatim>\<open>null\<close>) and the engine as the call leaves it.
\<close>

definition renderProjectToBuffer ::
  "('g, 'e) platform \<Rightarrow> AudioEngine \<Rightarrow> (js_exception + AudioBuffer option) \<times> AudioEngine" where
  "renderProjectToBuffer P s0 =
     (if length (notes' s0) = 0 then (Inr None, s0)
      else
        (let s = loadSamples P s0;
             lastNote = notes' s ! (length (notes' s) - 1);
             effectiveBpm = js_times (bpm s) (playbackSpeed s);
             secondsPerTick = js_divide (js_divide (Num 60) effectiveBpm) (Num 12);
             duration = js_plus (js_times (tick lastNote) secondsPerTick) (Num 3);
             sampleRate = (case ctx s of Some c \<Rightarrow> ctx_sampleRate c | None \<Rightarrow> Num 44100)
         in case newOfflineAudioContext P 2 (js_times sampleRate duration) sampleRate of
              Inl e \<Rightarrow> (Inl e, s)
            | Inr offlineCtx \<Rightarrow>
                (case schedule_notes P (map_of (currentTuning s)) (stringBuffers s)
                        secondsPerTick (notes' s) offlineCtx of
                   Inl e \<Rightarrow> (Inl e, s)
                 | Inr g \<Rightarrow>
                     (case startRendering P g of
                        Inl e \<Rightarrow> (Inl e, s)
                      | Inr renderedBuffer \<Rightarrow> (Inr (Some renderedBuffer), s)))))"

text \<open>
  \<^verbatim>\<open>exportWav\<close>. When the awaited render rejects, the rejection leaves the function at
  the \<^verbatim>\<open>await\<close>, and the statements after it do not run.
\<close>

definition exportWav ::
  "('g, 'e) platform \<Rightarrow> AudioEngine \<Rightarrow> (js_exception + Blob option) \<times> AudioEngine" where
  "exportWav P s0 =
     (let savedSpeed = playbackSpeed s0;
          s1 = s0\<lparr>playbackSpeed := Num 1\<rparr>;
          (result, s2) = renderProjectToBuffer P s1
      in case result of
           Inl e \<Rightarrow> (Inl e, s2)
         | Inr buffer \<Rightarrow>
             (let s3 = s2\<lparr>playbackSpeed := savedSpeed\<rparr>
              in case buffer of
                   None \<Rightarrow> (Inr None, s3)
                 | Some b \<Rightarrow> (Inr (Some (bufferToWave b (frames b))), s3)))"

text \<open>Lines 466 to 470: a sample of the \<^verbatim>\<open>Int16Array\<close> of \<^verbatim>\<open>exportMp3\<close>.\<close>

definition mp3_sample :: "jsnum \<Rightarrow> int" where
  "mp3_sample x =
     (let val = js_max (Num (- 1)) (js_min (Num 1) x)
      in to_int16 (if js_lt val (Num 0) then js_times val (Num 0x8000)
                   else js_times val (Num 0x7FFF)))"

text \<open>Lines 473 to 487, the loop over the blocks of 1152 samples.\<close>

function encode_blocks ::
  "('g, 'e) platform \<Rightarrow> nat \<Rightarrow> int list \<Rightarrow> int list \<Rightarrow> nat \<Rightarrow> 'e \<Rightarrow> nat list list \<Rightarrow>
   nat list list \<times> 'e" where
  "encode_blocks P chans samplesLeft samplesRight i enc mp3Data =
     (if i < length samplesLeft then
        (let leftChunk = take 1152 (drop i samplesLeft);
             rightChunk = take 1152 (drop i samplesRight);
             (mp3buf, enc') =
               (if chans = 2 then encodeBuffer P enc leftChunk (Some rightChunk)
                else encodeBuffer P enc leftChunk None)
         in encode_blocks P chans samplesLeft samplesRight (i + 1152) enc'
              (if length mp3buf > 0 then mp3Data @ [mp3buf] else mp3Data))
      else (mp3Data, enc))"
  by pat_completeness auto
termination
  by (relation "measure (\<lambda>(P, chans, samplesLeft, samplesRight, i, enc, mp3Data).
                           length samplesLeft - i)") auto

declare encode_blocks.simps [simp del]

text \<open>
  Lines 452 to 494 of \<^verbatim>\<open>exportMp3\<close>, the encoding of the rendered buffer.
  \<^verbatim>\<open>getChannelData(0)\<close> throws on a buffer without channels. The \<^verbatim>\<open>Int16Array\<close> of
  the right channel has the length of that channel and is written at the indices of the
  left one.
\<close>

definition encodeMp3 :: "('g, 'e) platform \<Rightarrow> AudioBuffer \<Rightarrow> js_exception + Blob" where
  "encodeMp3 P buffer =
     (case channels buffer of
        [] \<Rightarrow> Inl IndexSizeError
      | left # others \<Rightarrow>
          (let chans = numberOfChannels buffer;
               mp3encoder = newMp3Encoder P chans (sampleRate buffer) 320;
               right = (if chans > 1 then channels buffer ! 1 else left);
               samplesLeft = map mp3_sample left;
               samplesRight =
                 map mp3_sample (take (length left) right) @
                 replicate (length right - length left) 0;
               (mp3Data, enc) = encode_blocks P chans samplesLeft samplesRight 0 mp3encoder [];
               mp3buf = encoder_flush P enc;
               mp3Data' = (if length mp3buf > 0 then mp3Data @ [mp3buf] else mp3Data)
           in Inr \<lparr>blob_bytes = concat mp3Data', blob_type = js ''audio/mp3''\<rparr>))"

text \<open>\<^verbatim>\<open>exportMp3\<close>, lines 444 to 450 and the encoding above.\<close>

definition exportMp3 ::
  "('g, 'e) platform \<Rightarrow> AudioEngine \<Rightarrow> (js_exception + Blob option) \<times> AudioEngine" where
  "exportMp3 P s0 =
     (let savedSpeed = playbackSpeed s0;
          s1 = s0\<lparr>playbackSpeed := Num 1\<rparr>;
          (result, s2) = renderProjectToBuffer P s1
      in case result of
           Inl e \<Rightarrow> (Inl e, s2)
         | Inr buffer \<Rightarrow>
             (let s3 = s2\<lparr>playbackSpeed := savedSpeed\<rparr>
              in case buffer of
                   None \<Rightarrow> (Inr None, s3)
                 | Some b \<Rightarrow>
                     (case encodeMp3 P b of
                        Inl e \<Rightarrow> (Inl e, s3)
                      | Inr blob \<Rightarrow> (Inr (Some blob), s3))))"

subsection \<open>Notions used in the statements about the engine\<close>



text \<open>
  An engine and a platform for the concrete instances below. The platform's graph is the
  list of the sources started; its constructor refuses a length that is not a positive
  number; its renderer returns the two-channel buffer \<open>example_rendered\<close>.
\<close>

definition example_rendered :: AudioBuffer where
  "example_rendered =
     \<lparr>sampleRate = Num 48000, frames = 2,
      channels = [[Num (- 1 / 4), Num 1], [Num 0, Num (- 1)]]\<rparr>"

definition example_platform :: "((AudioBuffer property \<times> jsnum \<times> jsnum) list, unit) platform" where
  "example_platform =
     \<lparr>resolveSample = (\<lambda>rate note. \<lparr>sampleRate = rate, frames = 1, channels = [[Num (1 / 2)]]\<rparr>),
      memberText = (\<lambda>name. name),
      newOfflineAudioContext =
        (\<lambda>chans len rate. case len of
           Num x \<Rightarrow> if 0 < x then Inr [] else Inl NotSupportedError
         | _ \<Rightarrow> Inl NotSupportedError),
      startSource = (\<lambda>g buffer gain when. Inr (g @ [(buffer, gain, when)])),
      startRendering = (\<lambda>g. Inr example_rendered),
      newMp3Encoder = (\<lambda>chans rate kbps. ()),
      encodeBuffer = (\<lambda>enc left right. (map (\<lambda>x. nat (x mod 256)) left, enc)),
      encoder_flush = (\<lambda>enc. [])\<rparr>"

definition example_engine :: AudioEngine where
  "example_engine =
     \<lparr>ctx = Some \<lparr>ctx_sampleRate = Num 48000, currentTime = Num 7\<rparr>,
      isPlaying = False, nextNoteIndex = 0, startTime = Num 1, schedulerId = None,
      bpm = Num 120, playbackSpeed = Num 2,
      notes' = [\<lparr>note_id = js ''note-0'', tick = Num 12, duration = Num 0, stringId = js ''1D'',
                 message = None, isPageBreak = False, doigt = Some (Own (js ''P'')),
                 lineIndex = 0\<rparr>],
      animationFrameId = None, currentTuning = [(js ''1D'', js ''C4'')],
      isMetronomeEnabled = False, nextBeatTime = Num 0, currentBeatIndex = 0,
      rhythmMode = binary, shakerBuffer = None, stringBuffers = Map.empty,
      samplesLoaded = False, dest = False, prerenderedSource = False\<rparr>"

section \<open>Properties of the parser\<close>

lemma forEach_lines_append:
  "forEach_lines uc i (xs @ ys) st = forEach_lines uc (i + length xs) ys (forEach_lines uc i xs st)"
  by (induction xs arbitrary: i st) simp_all

lemma run_lines_snoc:
  "run_lines uc (ls @ [l]) = parse_line uc (length ls) l (run_lines uc ls)"
  by (simp add: run_lines_def forEach_lines_append)

lemma tick_le_refl: "tick_le x x"
  by (cases x) simp_all

lemma tick_le_trans: "tick_le x y \<Longrightarrow> tick_le y z \<Longrightarrow> tick_le x z"
  by (cases x; cases y; cases z) simp_all

lemma tick_le_not_gt: "tick_le x y \<Longrightarrow> \<not> js_gt x y"
  by (cases x; cases y) simp_all

lemma tick_le_not_after: "tick_le (tick a) (tick b) \<Longrightarrow> \<not> placed_after a b"
  by (cases "tick a"; cases "tick b") (simp_all add: placed_after_def js_minus_def)

lemma tick_le_plus: "nonneg_delta d \<Longrightarrow> tick_le x (js_plus x d)"
  by (cases x) (auto simp: nonneg_delta_def)

lemma parseFloat_nonneg: "0 \<le> parseFloat s"
  by (simp add: parseFloat_def Let_def)

lemma map_of_SYMBOLS_pos: "map_of SYMBOLS_DURATION k = Some v \<Longrightarrow> 0 < v"
  by (auto simp: SYMBOLS_DURATION_def TICKS_QUARTER_def TICKS_EIGHTH_def TICKS_TRIPLET_def
      TICKS_SIXTEENTH_def split: if_splits)

lemma duration_value_nonneg:
  "js_get (map_of SYMBOLS_DURATION) k = Some p \<Longrightarrow> nonneg_delta (duration_value p)"
  by (cases p) (auto simp: js_get_def nonneg_delta_def split: option.splits if_splits
      dest!: map_of_SYMBOLS_pos)

lemma truthy_Some: "truthy x \<Longrightarrow> \<exists>p. x = Some p"
  by (cases x) simp_all

lemma dotted_nonneg:
  assumes "js_get (map_of SYMBOLS_DURATION) k = Some p"
  shows "nonneg_delta (js_floor (js_times (duration_value p) (Num (3 / 2))))"
proof (cases p)
  case (Own v)
  with assms have "0 < v"
    by (auto simp: js_get_def split: option.splits if_splits dest!: map_of_SYMBOLS_pos)
  then have "0 \<le> v * (3 / 2)" by simp
  then have "0 \<le> \<lfloor>v * (3 / 2)\<rfloor>" by simp
  with Own show ?thesis by (simp add: nonneg_delta_def)
next
  case Inherited
  then show ?thesis by (simp add: nonneg_delta_def)
qed

lemma detect_delta_nonneg: "nonneg_delta (snd (detect_delta col1 c d))"
proof (cases "col1 = js ''=''")
  case True
  then show ?thesis by (simp add: detect_delta_def nonneg_delta_def)
next
  case False
  note neq = this
  show ?thesis
  proof (cases "matches_number col1")
    case True
    with neq show ?thesis
      by (simp add: detect_delta_def nonneg_delta_def parseFloat_nonneg)
  next
    case False
    note nonum = this
    show ?thesis
    proof (cases "js_get (map_of SYMBOLS_DURATION) col1")
      case (Some p)
      with neq nonum show ?thesis
        by (simp add: detect_delta_def duration_value_nonneg)
    next
      case None
      show ?thesis
      proof (cases "endsWith_dot col1 \<and> truthy (js_get (map_of SYMBOLS_DURATION) (butlast col1))")
        case True
        then obtain p where p: "js_get (map_of SYMBOLS_DURATION) (butlast col1) = Some p"
          using truthy_Some by blast
        with True None neq nonum show ?thesis
          by (simp add: detect_delta_def dotted_nonneg)
      next
        case False
        with None neq nonum show ?thesis
          by (auto simp: detect_delta_def nonneg_delta_def)
      qed
    qed
  qed
qed

lemma detect_delta_base:
  "fst (detect_delta col1 c d) = (if col1 = js ''='' \<and> d \<noteq> [] then tick (last d) else c)"
  by (auto simp: detect_delta_def last_conv_nth split: option.splits)

lemma parse_line_eq:
  "parse_line uc i l (c, d) =
     (if length (line_parts l) < 2 then (c, d)
      else (new_tick (line_parts l ! 0) c d,
            case content uc i (line_parts l) (new_tick (line_parts l ! 0) c d) of
              None \<Rightarrow> d | Some e \<Rightarrow> d @ [e]))"
  by (auto simp: parse_line_def new_tick_def Let_def split: prod.splits option.splits)

lemma content_Some:
  "content uc i parts t = Some e \<Longrightarrow> lineIndex e = i \<and> tick e = t"
  by (auto simp: content_def Let_def split: if_splits)

lemma js_inj: "js a = js b \<longleftrightarrow> a = b"
  by (simp add: js_def inj_map_eq_map inj_def)

lemma content_None_iff: "content uc i parts t = None \<longleftrightarrow> is_silence uc parts"
  by (auto simp: content_def is_silence_def Let_def js_inj)

lemma tick_le_base:
  assumes "ticks_inv (c, d)" "e \<in> set d"
  shows "tick_le (tick e) (fst (detect_delta col1 c d))"
proof (cases "col1 = js ''='' \<and> d \<noteq> []")
  case True
  then obtain d' x where d: "d = d' @ [x]" by (metis append_butlast_last_id)
  from assms(1) have "sorted_wrt (\<lambda>a b. tick_le (tick a) (tick b)) (d' @ [x])"
    by (simp add: ticks_inv_def d)
  then have "\<forall>y \<in> set d'. tick_le (tick y) (tick x)"
    by (simp add: sorted_wrt_append)
  with assms(2) d have "tick_le (tick e) (tick x)"
    by (auto simp: tick_le_refl)
  with True d show ?thesis by (simp add: detect_delta_base)
next
  case False
  with assms show ?thesis by (auto simp: detect_delta_base ticks_inv_def)
qed

lemma tick_le_new_tick:
  assumes "ticks_inv (c, d)" "e \<in> set d"
  shows "tick_le (tick e) (new_tick col1 c d)"
  unfolding new_tick_def
  by (rule tick_le_trans[OF tick_le_base[OF assms] tick_le_plus[OF detect_delta_nonneg]])

lemma ticks_inv_parse_line:
  assumes "ticks_inv st"
  shows "ticks_inv (parse_line uc i l st)"
proof -
  obtain c d where st: "st = (c, d)" by (cases st)
  show ?thesis
  proof (cases "length (line_parts l) < 2")
    case True
    with assms st show ?thesis by (simp add: parse_line_eq)
  next
    case False
    let ?t = "new_tick (line_parts l ! 0) c d"
    have le: "\<forall>e \<in> set d. tick_le (tick e) ?t"
      using assms st tick_le_new_tick by blast
    have sorted: "sorted_wrt (\<lambda>a b. tick_le (tick a) (tick b)) d"
      using assms st by (simp add: ticks_inv_def)
    show ?thesis
    proof (cases "content uc i (line_parts l) ?t")
      case None
      with False st le sorted show ?thesis by (simp add: parse_line_eq ticks_inv_def)
    next
      case (Some e)
      then have "tick e = ?t" by (simp add: content_Some)
      with Some False st le sorted show ?thesis
        by (simp add: parse_line_eq ticks_inv_def sorted_wrt_append tick_le_refl)
    qed
  qed
qed

lemma ticks_inv_run: "ticks_inv (run_lines uc ls)"
proof (induction ls rule: rev_induct)
  case Nil
  show ?case by (simp add: run_lines_def ticks_inv_def)
next
  case (snoc l ls)
  then show ?case by (simp add: run_lines_snoc ticks_inv_parse_line)
qed

lemma index_inv_run: "index_inv uc ls (snd (run_lines uc ls))"
proof (induction ls rule: rev_induct)
  case Nil
  show ?case by (simp add: run_lines_def index_inv_def)
next
  case (snoc l ls)
  obtain c d where st: "run_lines uc ls = (c, d)" by (cases "run_lines uc ls")
  from snoc st have IH: "index_inv uc ls d" by simp
  have old: "\<forall>e \<in> set d. lineIndex e < length ls \<and>
        2 \<le> length (line_parts ((ls @ [l]) ! lineIndex e)) \<and>
        content uc (lineIndex e) (line_parts ((ls @ [l]) ! lineIndex e)) (tick e) = Some e"
    using IH by (auto simp: index_inv_def nth_append)
  have cover: "\<forall>k < length ls. 2 \<le> length (line_parts ((ls @ [l]) ! k)) \<and>
        \<not> is_silence uc (line_parts ((ls @ [l]) ! k)) \<longrightarrow> (\<exists>e \<in> set d. lineIndex e = k)"
    using IH by (auto simp: index_inv_def nth_append)
  have sorted: "sorted_wrt (\<lambda>a b. lineIndex a < lineIndex b) d"
    using IH by (simp add: index_inv_def)
  show ?case
  proof (cases "length (line_parts l) < 2")
    case True
    then have "snd (run_lines uc (ls @ [l])) = d"
      by (simp add: run_lines_snoc st parse_line_eq)
    with True old cover sorted show ?thesis
      by (auto simp: index_inv_def less_Suc_eq nth_append)
  next
    case False
    let ?t = "new_tick (line_parts l ! 0) c d"
    show ?thesis
    proof (cases "content uc (length ls) (line_parts l) ?t")
      case None
      then have sil: "is_silence uc (line_parts l)" by (simp add: content_None_iff)
      from None False have "snd (run_lines uc (ls @ [l])) = d"
        by (simp add: run_lines_snoc st parse_line_eq)
      with sil old cover sorted show ?thesis
        by (auto simp: index_inv_def less_Suc_eq nth_append)
    next
      case (Some e)
      then have e: "lineIndex e = length ls" "tick e = ?t" by (simp_all add: content_Some)
      from Some False have res: "snd (run_lines uc (ls @ [l])) = d @ [e]"
        by (simp add: run_lines_snoc st parse_line_eq)
      have "sorted_wrt (\<lambda>a b. lineIndex a < lineIndex b) (d @ [e])"
        using sorted old e by (simp add: sorted_wrt_append)
      moreover have "\<forall>x \<in> set (d @ [e]). lineIndex x < length (ls @ [l]) \<and>
          2 \<le> length (line_parts ((ls @ [l]) ! lineIndex x)) \<and>
          content uc (lineIndex x) (line_parts ((ls @ [l]) ! lineIndex x)) (tick x) = Some x"
        using old e Some False by (auto simp: nth_append)
      moreover have "\<forall>k < length (ls @ [l]). 2 \<le> length (line_parts ((ls @ [l]) ! k)) \<and>
          \<not> is_silence uc (line_parts ((ls @ [l]) ! k)) \<longrightarrow> (\<exists>x \<in> set (d @ [e]). lineIndex x = k)"
        using cover e by (auto simp: less_Suc_eq nth_append)
      ultimately show ?thesis unfolding index_inv_def res by blast
    qed
  qed
qed

lemma js_sort_sorted:
  "sorted_wrt (\<lambda>a b. \<not> placed_after a b) xs \<Longrightarrow> js_sort xs = xs"
proof (induction xs)
  case Nil
  show ?case by (simp add: js_sort_def)
next
  case (Cons x xs)
  then have "js_sort xs = xs" by simp
  then have "js_sort (x # xs) = insert_sorted x xs" by (simp add: js_sort_def)
  with Cons.prems show ?case by (cases xs) simp_all
qed

lemma js_sort_run: "js_sort (snd (run_lines uc ls)) = snd (run_lines uc ls)"
proof -
  have "sorted_wrt (\<lambda>a b. tick_le (tick a) (tick b)) (snd (run_lines uc ls))"
    using ticks_inv_run[of uc ls] by (simp add: ticks_inv_def)
  then have "sorted_wrt (\<lambda>a b. \<not> placed_after a b) (snd (run_lines uc ls))"
    by (rule sorted_wrt_mono_rel[rotated]) (simp add: tick_le_not_after)
  then show ?thesis by (rule js_sort_sorted)
qed

lemma parseTablature_run:
  "parseTablature uc text =
     (if text = [] then [] else snd (run_lines uc (split_on 10 [] (trim text))))"
  by (simp add: parseTablature_def js_sort_run[unfolded run_lines_def] run_lines_def)

text \<open>The definitions that evaluate the parser on a concrete text.\<close>

lemmas parser_eval = parseTablature_def js_def trim_def isWhiteSpace_def parse_line_def line_parts_def
  detect_delta_def content_def toUpperCase_def matches_number_def parseFloat_def digits_value_def
  isDigit_def endsWith_dot_def js_get_def SYMBOLS_DURATION_def AUTOMATIC_FINGERING_def
  Object_prototype_members_def TICKS_QUARTER_def TICKS_EIGHTH_def TICKS_TRIPLET_def
  TICKS_SIXTEENTH_def js_sort_def placed_after_def js_minus_def decimal.simps Let_def

subsection \<open>The delta of a line\<close>

lemma delta_equals:
  "detect_delta (js ''='') c d = ((if d = [] then c else tick (last d)), Num 0)"
  by (simp add: detect_delta_def last_conv_nth)

lemma delta_not_equals: "col1 \<noteq> js ''='' \<Longrightarrow> fst (detect_delta col1 c d) = c"
  by (simp add: detect_delta_base)

lemma matches_number_not_equals: "matches_number tok \<Longrightarrow> tok \<noteq> js ''=''"
  by (auto simp: matches_number_def js_def isDigit_def)

lemma delta_number:
  "matches_number tok \<Longrightarrow> snd (detect_delta tok c d) = Num (parseFloat tok)"
  by (frule matches_number_not_equals) (simp add: detect_delta_def)

lemma parse_line_tick:
  assumes "2 \<le> length (line_parts line)"
  shows "fst (parse_line uc index line (c, d)) = new_tick (line_parts line ! 0) c d \<and>
         (snd (parse_line uc index line (c, d)) = d \<or>
          (\<exists>e. snd (parse_line uc index line (c, d)) = d @ [e] \<and>
               tick e = new_tick (line_parts line ! 0) c d \<and> lineIndex e = index))"
  using assms by (auto simp: parse_line_eq split: option.splits dest: content_Some)

lemma SYMBOLS_DURATION_keys:
  "map_of SYMBOLS_DURATION k = Some v \<Longrightarrow>
     (k, v) \<in> {(js ''+'', 12), ([9834], 6), ([127926], 4), ([9836], 3), (js ''w'', 48), (js ''h'', 24)}"
  by (auto simp: SYMBOLS_DURATION_def TICKS_QUARTER_def TICKS_EIGHTH_def TICKS_TRIPLET_def
      TICKS_SIXTEENTH_def split: if_splits)

lemma delta_symbol:
  assumes "map_of SYMBOLS_DURATION symb = Some v"
  shows "snd (detect_delta symb c d) = Num v"
  using SYMBOLS_DURATION_keys[OF assms]
  by (elim insertE emptyE; simp add: parser_eval)

lemma delta_dotted:
  assumes "map_of SYMBOLS_DURATION symb = Some v"
  shows "snd (detect_delta (symb @ js ''.'') c d) = Num (of_int \<lfloor>v * (3 / 2)\<rfloor>)"
  using SYMBOLS_DURATION_keys[OF assms]
  by (elim insertE emptyE; simp add: parser_eval)

subsection \<open>Ordering of the result\<close>

text \<open>
  Claim C2. For every input text the sequence that \<open>parseTablature\<close> returns never
  decreases in tick: no event has a tick greater (JavaScript \<^verbatim>\<open>>\<close>) than the tick of
  a later event, so two ticks that are numbers are in non-decreasing order; and every
  event comes from an earlier input line than the events after it, so events of equal
  tick keep the order of their lines. The events are pushed in that order already and the
  final stable sort on the tick leaves them in place.
\<close>

theorem parseTablature_sorted_stable:
  "let r = parseTablature uc text in
   \<forall>i j. i < j \<and> j < length r \<longrightarrow>
     \<not> js_gt (tick (r ! i)) (tick (r ! j)) \<and>
     (\<forall>a b. tick (r ! i) = Num a \<and> tick (r ! j) = Num b \<longrightarrow> a \<le> b) \<and>
     lineIndex (r ! i) < lineIndex (r ! j)"
proof (cases "text = []")
  case True
  then show ?thesis by (simp add: parseTablature_def)
next
  case False
  let ?ls = "split_on 10 [] (trim text)"
  let ?d = "snd (run_lines uc ?ls)"
  have r: "parseTablature uc text = ?d"
    using False by (simp add: parseTablature_run)
  have t: "sorted_wrt (\<lambda>a b. tick_le (tick a) (tick b)) ?d"
    using ticks_inv_run[of uc ?ls] by (simp add: ticks_inv_def)
  have l: "sorted_wrt (\<lambda>a b. lineIndex a < lineIndex b) ?d"
    using index_inv_run[of uc ?ls] by (simp add: index_inv_def)
  have "\<not> js_gt (tick (?d ! i)) (tick (?d ! j)) \<and>
        (\<forall>a b. tick (?d ! i) = Num a \<and> tick (?d ! j) = Num b \<longrightarrow> a \<le> b) \<and>
        lineIndex (?d ! i) < lineIndex (?d ! j)"
    if "i < j" "j < length ?d" for i j
  proof -
    from t that have le: "tick_le (tick (?d ! i)) (tick (?d ! j))"
      by (simp add: sorted_wrt_iff_nth_less)
    from l that have "lineIndex (?d ! i) < lineIndex (?d ! j)"
      by (simp add: sorted_wrt_iff_nth_less)
    moreover from le have "\<not> js_gt (tick (?d ! i)) (tick (?d ! j))"
      by (rule tick_le_not_gt)
    moreover from le have "\<forall>a b. tick (?d ! i) = Num a \<and> tick (?d ! j) = Num b \<longrightarrow> a \<le> b"
      by auto
    ultimately show ?thesis by blast
  qed
  then show ?thesis unfolding r Let_def by blast
qed

theorem parseTablature_sorted_stable_witness:
  "(0 :: nat) < 1 \<and>
   1 < length (parseTablature (\<lambda>c. [c]) (js ''+ 1D\<newline>= 2G\<newline>3 1D'')) \<and>
   map tick (parseTablature (\<lambda>c. [c]) (js ''+ 1D\<newline>= 2G\<newline>3 1D'')) = [Num 12, Num 12, Num 15] \<and>
   map lineIndex (parseTablature (\<lambda>c. [c]) (js ''+ 1D\<newline>= 2G\<newline>3 1D'')) = [0, 1, 2] \<and>
   \<not> js_gt (tick (parseTablature (\<lambda>c. [c]) (js ''+ 1D\<newline>= 2G\<newline>3 1D'') ! 0))
            (tick (parseTablature (\<lambda>c. [c]) (js ''+ 1D\<newline>= 2G\<newline>3 1D'') ! 1)) \<and>
   lineIndex (parseTablature (\<lambda>c. [c]) (js ''+ 1D\<newline>= 2G\<newline>3 1D'') ! 0)
     < lineIndex (parseTablature (\<lambda>c. [c]) (js ''+ 1D\<newline>= 2G\<newline>3 1D'') ! 1)"
proof -
  let ?r = "parseTablature (\<lambda>c. [c]) (js ''+ 1D\<newline>= 2G\<newline>3 1D'')"
  have len: "(0 :: nat) < 1 \<and> 1 < length ?r"
    by (simp add: parser_eval)
  have vals: "map tick ?r = [Num 12, Num 12, Num 15] \<and> map lineIndex ?r = [0, 1, 2]"
    by (simp add: parser_eval)
  from parseTablature_sorted_stable[of "\<lambda>c. [c]" "js ''+ 1D\<newline>= 2G\<newline>3 1D''"] len
  have "\<not> js_gt (tick (?r ! 0)) (tick (?r ! 1)) \<and> lineIndex (?r ! 0) < lineIndex (?r ! 1)"
    unfolding Let_def by blast
  with len vals show ?thesis by blast
qed

subsection \<open>The recorded line index\<close>

text \<open>The lines of a text and the lines of the trimmed text.\<close>

lemma split_on_cur:
  "split_on sep cur xs = (cur @ hd (split_on sep [] xs)) # tl (split_on sep [] xs)"
proof (induction xs arbitrary: cur)
  case Nil
  show ?case by simp
next
  case (Cons x xs)
  show ?case
  proof (cases "x = sep")
    case True
    then show ?thesis by simp
  next
    case False
    have "split_on sep (cur @ [x]) xs =
          ((cur @ [x]) @ hd (split_on sep [] xs)) # tl (split_on sep [] xs)"
      by (rule Cons.IH)
    moreover have "split_on sep [x] xs = ([x] @ hd (split_on sep [] xs)) # tl (split_on sep [] xs)"
      by (rule Cons.IH)
    ultimately show ?thesis using False by simp
  qed
qed

lemma split_on_nonempty: "split_on sep cur xs \<noteq> []"
  by (induction xs arbitrary: cur) auto

lemma split_on_no_sep: "sep \<notin> set xs \<Longrightarrow> split_on sep cur xs = [cur @ xs]"
  by (induction xs arbitrary: cur) auto

lemma split_on_append:
  "split_on sep cur (xs @ ys) =
     butlast (split_on sep cur xs) @
     [last (split_on sep cur xs) @ hd (split_on sep [] ys)] @ tl (split_on sep [] ys)"
proof (induction xs arbitrary: cur)
  case Nil
  show ?case using split_on_cur[of sep cur ys] by simp
next
  case (Cons x xs)
  show ?case
    using Cons.IH[of "[]"] Cons.IH[of "cur @ [x]"] split_on_nonempty[of sep _ xs]
    by (cases "x = sep") simp_all
qed

lemma trim_ws_prefix: "\<forall>c \<in> set w. isWhiteSpace c \<Longrightarrow> trim (w @ l) = trim l"
  by (simp add: trim_def dropWhile_append)

lemma trim_ws_suffix:
  assumes "\<forall>c \<in> set w. isWhiteSpace c"
  shows "trim (l @ w) = trim l"
proof (cases "\<forall>c \<in> set l. isWhiteSpace c")
  case True
  then have a: "dropWhile isWhiteSpace l = []" by simp
  from True assms have b: "dropWhile isWhiteSpace (l @ w) = []" by simp
  show ?thesis unfolding trim_def a b ..
next
  case False
  then have "dropWhile isWhiteSpace (l @ w) = dropWhile isWhiteSpace l @ w"
    by (auto simp: dropWhile_append)
  with assms show ?thesis
    by (simp add: trim_def dropWhile_append)
qed

lemma trim_decompose:
  "\<exists>post. (\<forall>c \<in> set post. isWhiteSpace c) \<and>
      text = takeWhile isWhiteSpace text @ trim text @ post"
proof -
  let ?d = "dropWhile isWhiteSpace text"
  let ?post = "rev (takeWhile isWhiteSpace (rev ?d))"
  have "rev ?d = takeWhile isWhiteSpace (rev ?d) @ dropWhile isWhiteSpace (rev ?d)"
    by simp
  then have "?d = rev (dropWhile isWhiteSpace (rev ?d)) @ ?post"
    by (metis rev_append rev_rev_ident)
  then have "?d = trim text @ ?post" by (simp add: trim_def)
  then have "text = takeWhile isWhiteSpace text @ trim text @ ?post"
    by (metis takeWhile_dropWhile_id)
  moreover have "\<forall>c \<in> set ?post. isWhiteSpace c"
    by (auto dest: set_takeWhileD)
  ultimately show ?thesis by blast
qed

lemma line_parts_trim: "trim a = trim b \<Longrightarrow> line_parts a = line_parts b"
  by (simp add: line_parts_def)

lemma ws_hd_split:
  "\<forall>c \<in> set w. isWhiteSpace c \<Longrightarrow> \<forall>c \<in> set (hd (split_on sep [] w)). isWhiteSpace c"
proof (induction w)
  case Nil
  show ?case by simp
next
  case (Cons x w)
  then show ?case
    using split_on_cur[of sep "[x]" w] by (cases "x = sep") auto
qed

lemma lines_of_trimmed:
  assumes "10 \<notin> set (takeWhile isWhiteSpace text)"
    and "k < length (split_on 10 [] (trim text))"
  shows "k < length (split_on 10 [] text) \<and>
         line_parts (split_on 10 [] (trim text) ! k) = line_parts (split_on 10 [] text ! k)"
proof -
  let ?pre = "takeWhile isWhiteSpace text"
  let ?m = "split_on 10 [] (trim text)"
  obtain post where post: "\<forall>c \<in> set post. isWhiteSpace c" and tx: "text = ?pre @ trim text @ post"
    using trim_decompose by blast
  have pre: "\<forall>c \<in> set ?pre. isWhiteSpace c"
    by (auto dest: set_takeWhileD)
  have m: "?m \<noteq> []" by (rule split_on_nonempty)
  let ?h = "hd (split_on 10 [] post)"
  have h: "\<forall>c \<in> set ?h. isWhiteSpace c" using post by (rule ws_hd_split)
  define mp where "mp = butlast ?m @ [last ?m @ ?h] @ tl (split_on 10 [] post)"
  have mp: "split_on 10 [] (trim text @ post) = mp"
    unfolding mp_def by (rule split_on_append)
  have mp_k: "k < length mp \<and> trim (mp ! k) = trim (?m ! k)"
  proof (cases "k < length ?m - 1")
    case True
    then have "mp ! k = butlast ?m ! k" by (simp add: mp_def nth_append)
    also have "\<dots> = ?m ! k" using True by (simp add: nth_butlast)
    finally show ?thesis using True by (simp add: mp_def)
  next
    case False
    with assms(2) have k: "k = length ?m - 1" by simp
    then have "mp ! k = last ?m @ ?h" by (simp add: mp_def nth_append)
    moreover have "?m ! k = last ?m" using k m by (simp add: last_conv_nth)
    ultimately show ?thesis using h k by (simp add: trim_ws_suffix mp_def)
  qed
  have all: "split_on 10 [] text = (?pre @ hd mp) # tl mp"
  proof -
    have "split_on 10 [] text = split_on 10 [] (?pre @ (trim text @ post))"
      using tx by simp
    also have "\<dots> = butlast (split_on 10 [] ?pre) @
        [last (split_on 10 [] ?pre) @ hd mp] @ tl mp"
      unfolding mp[symmetric] by (rule split_on_append)
    also have "\<dots> = (?pre @ hd mp) # tl mp"
      using assms(1) by (simp add: split_on_no_sep)
    finally show ?thesis .
  qed
  have mpne: "mp \<noteq> []" by (simp add: mp_def)
  from mp_k have klen: "k < length mp" and ktrim: "trim (mp ! k) = trim (?m ! k)"
    by simp_all
  have "k < length (split_on 10 [] text) \<and> trim (split_on 10 [] text ! k) = trim (mp ! k)"
  proof (cases k)
    case 0
    with mpne pre show ?thesis
      by (simp add: all trim_ws_prefix hd_conv_nth)
  next
    case (Suc n)
    with klen have n: "n < length (tl mp)" by simp
    then have "tl mp ! n = mp ! Suc n" by (rule nth_tl)
    with n Suc show ?thesis
      by (simp add: all)
  qed
  with ktrim show ?thesis
    by (auto intro: line_parts_trim)
qed

text \<open>
  Claim C4, as stated, fails on a text that starts with a line break: the text is
  trimmed before it is split into lines, so the line \<open>+ 1D\<close>, second line of the input
  (index 1), is recorded with index 0.
\<close>

theorem lineIndex_leading_blank_counterexample:
  "map lineIndex (parseTablature (\<lambda>c. [c]) (js ''\<newline>+ 1D'')) = [0] \<and>
   split_on 10 [] (js ''\<newline>+ 1D'') = [[], js ''+ 1D'']"
  by (simp add: parser_eval)

text \<open>
  Claim C4, amended. The recorded index counts the lines of the trimmed text: every
  returned event is the object that the line of its recorded index, among the lines of the
  trimmed text, pushes; a line has an event exactly when it has two fields or more and is
  no silence; and no two events share an index. When the white space that starts the
  text holds no line break, the line of that index in the original text has the same
  fields, so the index is that of the originating line of the input.
\<close>

theorem lineIndex_provenance:
  "let lines = split_on 10 [] (trim text); r = parseTablature uc text in
   (\<forall>e \<in> set r.
      lineIndex e < length lines \<and>
      2 \<le> length (line_parts (lines ! lineIndex e)) \<and>
      content uc (lineIndex e) (line_parts (lines ! lineIndex e)) (tick e) = Some e) \<and>
   (\<forall>k < length lines.
      (\<exists>e \<in> set r. lineIndex e = k) \<longleftrightarrow>
      (2 \<le> length (line_parts (lines ! k)) \<and> \<not> is_silence uc (line_parts (lines ! k)))) \<and>
   distinct (map lineIndex r) \<and>
   (10 \<notin> set (takeWhile isWhiteSpace text) \<longrightarrow>
      (\<forall>e \<in> set r.
         lineIndex e < length (split_on 10 [] text) \<and>
         content uc (lineIndex e) (line_parts (split_on 10 [] text ! lineIndex e)) (tick e) = Some e))"
proof (cases "text = []")
  case True
  then show ?thesis
    by (simp add: parseTablature_def trim_def line_parts_def)
next
  case False
  let ?ls = "split_on 10 [] (trim text)"
  let ?d = "snd (run_lines uc ?ls)"
  have r: "parseTablature uc text = ?d"
    using False by (simp add: parseTablature_run)
  have inv: "index_inv uc ?ls ?d" by (rule index_inv_run)
  have prov: "\<forall>e \<in> set ?d.
      lineIndex e < length ?ls \<and>
      2 \<le> length (line_parts (?ls ! lineIndex e)) \<and>
      content uc (lineIndex e) (line_parts (?ls ! lineIndex e)) (tick e) = Some e"
    using inv unfolding index_inv_def by blast
  have cover: "\<forall>k < length ?ls.
      2 \<le> length (line_parts (?ls ! k)) \<and> \<not> is_silence uc (line_parts (?ls ! k))
      \<longrightarrow> (\<exists>e \<in> set ?d. lineIndex e = k)"
    using inv unfolding index_inv_def by blast
  have only: "2 \<le> length (line_parts (?ls ! lineIndex e)) \<and>
      \<not> is_silence uc (line_parts (?ls ! lineIndex e))" if "e \<in> set ?d" for e
  proof -
    from prov that have "content uc (lineIndex e) (line_parts (?ls ! lineIndex e)) (tick e) \<noteq> None"
      and "2 \<le> length (line_parts (?ls ! lineIndex e))" by auto
    then show ?thesis by (simp add: content_None_iff)
  qed
  have iff: "\<forall>k < length ?ls.
      (\<exists>e \<in> set ?d. lineIndex e = k) \<longleftrightarrow>
      (2 \<le> length (line_parts (?ls ! k)) \<and> \<not> is_silence uc (line_parts (?ls ! k)))"
    using cover only by blast
  have "sorted_wrt (\<lambda>a b. lineIndex a < lineIndex b) ?d"
    using inv by (simp add: index_inv_def)
  then have "sorted_wrt (<) (map lineIndex ?d)"
    by (simp add: sorted_wrt_map)
  then have dist: "distinct (map lineIndex ?d)"
    by (simp add: strict_sorted_iff)
  have orig: "lineIndex e < length (split_on 10 [] text) \<and>
      content uc (lineIndex e) (line_parts (split_on 10 [] text ! lineIndex e)) (tick e) = Some e"
    if "10 \<notin> set (takeWhile isWhiteSpace text)" "e \<in> set ?d" for e
  proof -
    from prov that(2) have k: "lineIndex e < length ?ls"
      and c: "content uc (lineIndex e) (line_parts (?ls ! lineIndex e)) (tick e) = Some e"
      by auto
    from lines_of_trimmed[OF that(1) k] c show ?thesis by simp
  qed
  show ?thesis unfolding r Let_def using prov iff dist orig by blast
qed

theorem lineIndex_provenance_witness:
  "10 \<notin> set (takeWhile isWhiteSpace (js ''+ 1D\<newline>+ S\<newline>x\<newline>\<newline>= TXT hi\<newline>'')) \<and>
   map lineIndex (parseTablature (\<lambda>c. [c]) (js ''+ 1D\<newline>+ S\<newline>x\<newline>\<newline>= TXT hi\<newline>'')) = [0, 4] \<and>
   length (split_on 10 [] (trim (js ''+ 1D\<newline>+ S\<newline>x\<newline>\<newline>= TXT hi\<newline>''))) = 5 \<and>
   split_on 10 [] (js ''+ 1D\<newline>+ S\<newline>x\<newline>\<newline>= TXT hi\<newline>'') ! 4 = js ''= TXT hi'' \<and>
   content (\<lambda>c. [c]) 4 (line_parts (js ''= TXT hi'')) (Num 12) =
     Some (parseTablature (\<lambda>c. [c]) (js ''+ 1D\<newline>+ S\<newline>x\<newline>\<newline>= TXT hi\<newline>'') ! 1) \<and>
   distinct (map lineIndex (parseTablature (\<lambda>c. [c]) (js ''+ 1D\<newline>+ S\<newline>x\<newline>\<newline>= TXT hi\<newline>'')))"
proof -
  let ?text = "js ''+ 1D\<newline>+ S\<newline>x\<newline>\<newline>= TXT hi\<newline>''"
  let ?r = "parseTablature (\<lambda>c. [c]) ?text"
  let ?lines = "split_on 10 [] (trim ?text)"
  have h: "10 \<notin> set (takeWhile isWhiteSpace ?text)"
    by (simp add: parser_eval)
  have vals: "map lineIndex ?r = [0, 4] \<and> length ?lines = 5 \<and>
      split_on 10 [] ?text ! 4 = js ''= TXT hi''"
    by (simp add: parser_eval)
  have len: "length ?r = 2" by (simp add: parser_eval)
  have idx: "lineIndex (?r ! 1) = 4" by (simp add: parser_eval)
  have tk: "tick (?r ! 1) = Num 12" by (simp add: parser_eval)
  from len have mem: "?r ! 1 \<in> set ?r" by simp
  from lineIndex_provenance[of ?text "\<lambda>c. [c]"] mem h
  have "content (\<lambda>c. [c]) (lineIndex (?r ! 1))
          (line_parts (split_on 10 [] ?text ! lineIndex (?r ! 1))) (tick (?r ! 1)) = Some (?r ! 1)"
    and "distinct (map lineIndex ?r)"
    unfolding Let_def by blast+
  with h vals idx tk show ?thesis by simp
qed

subsection \<open>Silences\<close>

text \<open>
  Claim C7. A line of two fields or more whose second field is \<open>S\<close>, \<open>SILENCE\<close> or
  \<open>SEP\<close> once \<^verbatim>\<open>toUpperCase\<close> has been applied pushes no event and sets the cursor as
  every other line does: to the cursor plus the delta of its first field, where the
  cursor is the one before the line unless the first field is \<open>=\<close>. The text \<open>+ S\<close>,
  \<open>+ 1D\<close> gives exactly one event, at tick 24.
\<close>

theorem silence_advances_cursor:
  "(2 \<le> length (line_parts line) \<and>
    toUpperCase uc (line_parts line ! 1) \<in> {js ''S'', js ''SILENCE'', js ''SEP''} \<longrightarrow>
      snd (parse_line uc index line (c, d)) = d \<and>
      fst (parse_line uc index line (c, d)) =
        js_plus (fst (detect_delta (line_parts line ! 0) c d))
                (snd (detect_delta (line_parts line ! 0) c d)) \<and>
      (line_parts line ! 0 \<noteq> js ''='' \<longrightarrow> fst (detect_delta (line_parts line ! 0) c d) = c)) \<and>
   map tick (parseTablature uc (js ''+ S\<newline>+ 1D'')) = [Num 24]"
proof -
  have "content uc index (line_parts line) t = None"
    if "toUpperCase uc (line_parts line ! 1) \<in> {js ''S'', js ''SILENCE'', js ''SEP''}" for t
    using that by (simp add: content_None_iff is_silence_def)
  then have "snd (parse_line uc index line (c, d)) = d \<and>
      fst (parse_line uc index line (c, d)) =
        js_plus (fst (detect_delta (line_parts line ! 0) c d))
                (snd (detect_delta (line_parts line ! 0) c d))"
    if "2 \<le> length (line_parts line)"
      "toUpperCase uc (line_parts line ! 1) \<in> {js ''S'', js ''SILENCE'', js ''SEP''}"
    using that by (simp add: parse_line_eq new_tick_def)
  moreover have "map tick (parseTablature uc (js ''+ S\<newline>+ 1D'')) = [Num 24]"
    by (simp add: parser_eval)
  ultimately show ?thesis
    using delta_not_equals by blast
qed

theorem silence_advances_cursor_witness:
  "2 \<le> length (line_parts (js ''8 silence'')) \<and>
   toUpperCase (\<lambda>c. [c]) (line_parts (js ''8 silence'') ! 1) \<in> {js ''S'', js ''SILENCE'', js ''SEP''} \<and>
   line_parts (js ''8 silence'') ! 0 \<noteq> js ''='' \<and>
   parse_line (\<lambda>c. [c]) 3 (js ''8 silence'') (Num 12, []) = (Num 20, [])"
proof -
  have h: "2 \<le> length (line_parts (js ''8 silence'')) \<and>
      toUpperCase (\<lambda>c. [c]) (line_parts (js ''8 silence'') ! 1) \<in> {js ''S'', js ''SILENCE'', js ''SEP''}"
    by (simp add: parser_eval)
  have n: "line_parts (js ''8 silence'') ! 0 \<noteq> js ''=''"
    by (simp add: parser_eval)
  have v: "detect_delta (line_parts (js ''8 silence'') ! 0) (Num 12) [] = (Num 12, Num 8)"
    by (simp add: parser_eval)
  from silence_advances_cursor[of "js ''8 silence''" "\<lambda>c. [c]" 3 "Num 12" "[]"] h
  have "snd (parse_line (\<lambda>c. [c]) 3 (js ''8 silence'') (Num 12, [])) = [] \<and>
        fst (parse_line (\<lambda>c. [c]) 3 (js ''8 silence'') (Num 12, [])) =
          js_plus (fst (detect_delta (line_parts (js ''8 silence'') ! 0) (Num 12) []))
                  (snd (detect_delta (line_parts (js ''8 silence'') ! 0) (Num 12) []))"
    by blast
  with v have "parse_line (\<lambda>c. [c]) 3 (js ''8 silence'') (Num 12, []) = (Num 20, [])"
    by (simp add: prod_eq_iff)
  with h n show ?thesis by blast
qed

subsection \<open>The fallback delta\<close>

text \<open>
  Claim C6 on the first field \<open>constructor\<close>, which is no \<open>=\<close>, no number, no
  duration symbol and no dotted symbol. \<^verbatim>\<open>SYMBOLS_DURATION["constructor"]\<close> is the
  function \<^verbatim>\<open>Object\<close> that the table inherits, so the test
  \<^verbatim>\<open>SYMBOLS_DURATION[col1] !== undefined\<close> of line 53 holds, the fallback of line 60 is
  not reached, and the tick, the cursor plus that function, is a string and not 12. The
  token \<open>xyz\<close> does get 12.
\<close>

theorem fallback_misses_inherited_member:
  "map tick (parseTablature uc (js ''constructor 1D'')) = [NotANumber] \<and>
   snd (detect_delta (js ''constructor'') (Num 0) []) = NotANumber \<and>
   map tick (parseTablature uc (js ''xyz 1D'')) = [Num 12]"
  by (simp add: parser_eval)

text \<open>
  The fallback of 12 ticks is what a first field gets that is neither of the forms the
  parser knows nor the name, dotted or not, of a member of \<^verbatim>\<open>Object.prototype\<close>.
\<close>

lemma fallback_delta:
  assumes "col1 \<noteq> js ''=''" "\<not> matches_number col1"
    and "map_of SYMBOLS_DURATION col1 = None"
    and "\<not> (endsWith_dot col1 \<and> map_of SYMBOLS_DURATION (butlast col1) \<noteq> None)"
    and "col1 \<notin> set Object_prototype_members"
    and "\<not> (endsWith_dot col1 \<and> butlast col1 \<in> set Object_prototype_members)"
  shows "detect_delta col1 c d = (c, Num 12)"
proof -
  have "js_get (map_of SYMBOLS_DURATION) col1 = None"
    using assms(3,5) by (simp add: js_get_def)
  moreover have "\<not> (endsWith_dot col1 \<and> truthy (js_get (map_of SYMBOLS_DURATION) (butlast col1)))"
    using assms(4,6) by (auto simp: js_get_def split: option.splits)
  ultimately show ?thesis
    using assms(1,2) by (auto simp: detect_delta_def)
qed

subsection \<open>The tick of a line\<close>

text \<open>
  Claim C1, as stated, fails for a line \<open>=\<close> that no event precedes when an earlier
  line has moved the cursor: after the silence \<open>+ S\<close> no event exists and the cursor
  is 12; the line \<open>= 1D\<close> then lands on tick 12, not on tick 0.
\<close>

theorem equals_after_silence_counterexample:
  "run_lines (\<lambda>c. [c]) [js ''+ S''] = (Num 12, []) \<and>
   map tick (parseTablature (\<lambda>c. [c]) (js ''+ S\<newline>= 1D'')) = [Num 12] \<and>
   map tick (parseTablature (\<lambda>c. [c]) (js ''+ S\<newline>= 1D'')) \<noteq> [Num 0]"
  by (simp add: parser_eval run_lines_def)

text \<open>
  Claim C1, amended. The loop starts with the cursor 0 and no event, and handles each
  line on the state the lines before it left. A line of two fields or more sets the
  cursor to the cursor plus the delta of its first field, and the event it pushes, if
  any, has that tick. For the field \<open>=\<close> the delta is 0 and the cursor is first reset to
  the tick of the event pushed last, or left where it is when there is none; for every
  other field the cursor is the one before the line. A number in decimal notation has
  its value as delta, a duration symbol its value in the table (12, 6, 4, 3, 48 and 24),
  a duration symbol followed by a dot the floor of one and a half times that value. The
  lines \<open>+ 1D\<close>, \<open>U+266A 2G\<close>, \<open>= 3D\<close> give the ticks 12, 18 and 18, and the line
  \<open>+. 1D\<close> gives 18.
\<close>

theorem delta_resolution:
  "run_lines uc [] = (Num 0, []) \<and>
   run_lines uc (ls @ [l]) = parse_line uc (length ls) l (run_lines uc ls) \<and>
   (2 \<le> length (line_parts line) \<longrightarrow>
      fst (parse_line uc index line (c, d)) =
        js_plus (fst (detect_delta (line_parts line ! 0) c d))
                (snd (detect_delta (line_parts line ! 0) c d)) \<and>
      (snd (parse_line uc index line (c, d)) = d \<or>
       (\<exists>e. snd (parse_line uc index line (c, d)) = d @ [e] \<and>
            tick e = fst (parse_line uc index line (c, d))))) \<and>
   detect_delta (js ''='') c d = ((if d = [] then c else tick (last d)), Num 0) \<and>
   (col1 \<noteq> js ''='' \<longrightarrow> fst (detect_delta col1 c d) = c) \<and>
   (matches_number tok \<longrightarrow> snd (detect_delta tok c d) = Num (parseFloat tok)) \<and>
   (map_of SYMBOLS_DURATION symb = Some v \<longrightarrow>
      snd (detect_delta symb c d) = Num v \<and>
      snd (detect_delta (symb @ js ''.'') c d) = Num (of_int \<lfloor>v * (3 / 2)\<rfloor>)) \<and>
   SYMBOLS_DURATION =
     [(js ''+'', 12), ([9834], 6), ([127926], 4), ([9836], 3), (js ''w'', 48), (js ''h'', 24)] \<and>
   map tick (parseTablature uc (js ''+ 1D\<newline>'' @ [9834] @ js '' 2G\<newline>= 3D'')) =
     [Num 12, Num 18, Num 18] \<and>
   map tick (parseTablature uc (js ''+. 1D'')) = [Num 18]"
proof -
  have "run_lines uc [] = (Num 0, [])"
    by (simp add: run_lines_def)
  moreover have "run_lines uc (ls @ [l]) = parse_line uc (length ls) l (run_lines uc ls)"
    by (rule run_lines_snoc)
  moreover have "2 \<le> length (line_parts line) \<longrightarrow>
      fst (parse_line uc index line (c, d)) =
        js_plus (fst (detect_delta (line_parts line ! 0) c d))
                (snd (detect_delta (line_parts line ! 0) c d)) \<and>
      (snd (parse_line uc index line (c, d)) = d \<or>
       (\<exists>e. snd (parse_line uc index line (c, d)) = d @ [e] \<and>
            tick e = fst (parse_line uc index line (c, d))))"
    using parse_line_tick[of line uc index c d] by (auto simp: new_tick_def)
  moreover have "detect_delta (js ''='') c d = ((if d = [] then c else tick (last d)), Num 0)"
    by (rule delta_equals)
  moreover have "col1 \<noteq> js ''='' \<longrightarrow> fst (detect_delta col1 c d) = c"
    by (simp add: delta_not_equals)
  moreover have "matches_number tok \<longrightarrow> snd (detect_delta tok c d) = Num (parseFloat tok)"
    by (simp add: delta_number)
  moreover have "map_of SYMBOLS_DURATION symb = Some v \<longrightarrow>
      snd (detect_delta symb c d) = Num v \<and>
      snd (detect_delta (symb @ js ''.'') c d) = Num (of_int \<lfloor>v * (3 / 2)\<rfloor>)"
    by (simp add: delta_symbol delta_dotted)
  moreover have "SYMBOLS_DURATION =
     [(js ''+'', 12), ([9834], 6), ([127926], 4), ([9836], 3), (js ''w'', 48), (js ''h'', 24)]"
    by (simp add: SYMBOLS_DURATION_def TICKS_QUARTER_def TICKS_EIGHTH_def TICKS_TRIPLET_def
        TICKS_SIXTEENTH_def)
  moreover have "map tick (parseTablature uc (js ''+ 1D\<newline>'' @ [9834] @ js '' 2G\<newline>= 3D'')) =
     [Num 12, Num 18, Num 18]"
    by (simp add: parser_eval)
  moreover have "map tick (parseTablature uc (js ''+. 1D'')) = [Num 18]"
    by (simp add: parser_eval)
  ultimately show ?thesis by blast
qed

theorem delta_resolution_witness:
  "2 \<le> length (line_parts ([9834] @ js '' 2G'')) \<and>
   js ''+'' \<noteq> js ''='' \<and>
   matches_number (js ''1.5'') \<and>
   map_of SYMBOLS_DURATION [9836] = Some 3 \<and>
   run_lines (\<lambda>c. [c]) [js ''+ 1D''] = (Num 12, snd (run_lines (\<lambda>c. [c]) [js ''+ 1D''])) \<and>
   fst (run_lines (\<lambda>c. [c]) ([js ''+ 1D''] @ [[9834] @ js '' 2G''])) = Num 18 \<and>
   fst (detect_delta (js ''+'') (Num 12) []) = Num 12 \<and>
   snd (detect_delta (js ''1.5'') (Num 12) []) = Num (3 / 2) \<and>
   snd (detect_delta [9836] (Num 12) []) = Num 3 \<and>
   snd (detect_delta ([9836] @ js ''.'') (Num 12) []) = Num 4"
proof -
  have h: "2 \<le> length (line_parts ([9834] @ js '' 2G'')) \<and> js ''+'' \<noteq> js ''='' \<and>
      matches_number (js ''1.5'') \<and> map_of SYMBOLS_DURATION [9836] = Some 3"
    by (simp add: parser_eval)
  have r: "run_lines (\<lambda>c. [c]) [js ''+ 1D''] = (Num 12, snd (run_lines (\<lambda>c. [c]) [js ''+ 1D'']))"
    by (simp add: parser_eval run_lines_def)
  have pf: "parseFloat (js ''1.5'') = 3 / 2"
    by (simp add: parser_eval)
  have fl: "\<lfloor>(3 :: rat) * (3 / 2)\<rfloor> = 4"
    by (rule floor_unique) simp_all
  have dd: "detect_delta (line_parts ([9834] @ js '' 2G'') ! 0) (Num 12) d = (Num 12, Num 6)" for d
    by (simp add: parser_eval)
  note inst = delta_resolution[of "\<lambda>c. [c]" "[js ''+ 1D'']" "[9834] @ js '' 2G''" "[9834] @ js '' 2G''"
      1 "Num 12" "[]" "js ''+''" "js ''1.5''" "[9836]" 3]
  from inst h have a: "fst (detect_delta (js ''+'') (Num 12) []) = Num 12"
    and b: "snd (detect_delta (js ''1.5'') (Num 12) []) = Num (parseFloat (js ''1.5''))"
    and c: "snd (detect_delta [9836] (Num 12) []) = Num 3"
    and e: "snd (detect_delta ([9836] @ js ''.'') (Num 12) []) = Num (of_int \<lfloor>(3 :: rat) * (3 / 2)\<rfloor>)"
    by blast+
  from inst have step: "run_lines (\<lambda>c. [c]) ([js ''+ 1D''] @ [[9834] @ js '' 2G'']) =
      parse_line (\<lambda>c. [c]) (length [js ''+ 1D'']) ([9834] @ js '' 2G'') (run_lines (\<lambda>c. [c]) [js ''+ 1D''])"
    by blast
  from delta_resolution[of "\<lambda>c. [c]" "[]" "[]" "[9834] @ js '' 2G''" 1 "Num 12"
      "snd (run_lines (\<lambda>c. [c]) [js ''+ 1D''])"] h
  have "fst (parse_line (\<lambda>c. [c]) 1 ([9834] @ js '' 2G'') (Num 12, snd (run_lines (\<lambda>c. [c]) [js ''+ 1D'']))) =
      js_plus (Num 12) (Num 6)"
    unfolding dd by simp
  with step r have f: "fst (run_lines (\<lambda>c. [c]) ([js ''+ 1D''] @ [[9834] @ js '' 2G''])) = Num 18"
    by simp
  from h r f a b c e pf fl show ?thesis by simp
qed

section \<open>Properties of the audio engine\<close>

lemma loadSamples_frame:
  "playbackSpeed (loadSamples P s) = playbackSpeed s"
  "bpm (loadSamples P s) = bpm s"
  "notes' (loadSamples P s) = notes' s"
  "ctx (loadSamples P s) = ctx s"
  "currentTuning (loadSamples P s) = currentTuning s"
  by (simp_all add: loadSamples_def Let_def split: option.splits)

lemma render_state:
  "snd (renderProjectToBuffer P s) = (if notes' s = [] then s else loadSamples P s)"
  by (simp add: renderProjectToBuffer_def Let_def split: sum.splits)

lemma render_speed: "playbackSpeed (snd (renderProjectToBuffer P s)) = playbackSpeed s"
  by (simp add: render_state loadSamples_frame)












lemma exportWav_eq:
  "exportWav P s =
     (case fst (renderProjectToBuffer P (s\<lparr>playbackSpeed := Num 1\<rparr>)) of
        Inl e \<Rightarrow> (Inl e, snd (renderProjectToBuffer P (s\<lparr>playbackSpeed := Num 1\<rparr>)))
      | Inr buffer \<Rightarrow>
          (Inr (map_option (\<lambda>b. bufferToWave b (frames b)) buffer),
           (snd (renderProjectToBuffer P (s\<lparr>playbackSpeed := Num 1\<rparr>)))
             \<lparr>playbackSpeed := playbackSpeed s\<rparr>))"
  by (simp add: exportWav_def Let_def split: prod.splits sum.splits option.splits)

lemma exportMp3_eq:
  "exportMp3 P s =
     (case fst (renderProjectToBuffer P (s\<lparr>playbackSpeed := Num 1\<rparr>)) of
        Inl e \<Rightarrow> (Inl e, snd (renderProjectToBuffer P (s\<lparr>playbackSpeed := Num 1\<rparr>)))
      | Inr buffer \<Rightarrow>
          ((case buffer of
              None \<Rightarrow> Inr None
            | Some b \<Rightarrow> (case encodeMp3 P b of Inl e \<Rightarrow> Inl e | Inr blob \<Rightarrow> Inr (Some blob))),
           (snd (renderProjectToBuffer P (s\<lparr>playbackSpeed := Num 1\<rparr>)))
             \<lparr>playbackSpeed := playbackSpeed s\<rparr>))"
  by (simp add: exportMp3_def Let_def split: prod.splits sum.splits option.splits)

text \<open>The definitions that evaluate the engine on the example.\<close>

lemmas engine_eval = example_engine_def example_platform_def renderProjectToBuffer_def
  loadSamples_def unique_def js_get_def Object_prototype_members_def js_def Let_def

lemma example_render:
  "fst (renderProjectToBuffer example_platform (example_engine\<lparr>playbackSpeed := Num 1\<rparr>)) =
     Inr (Some example_rendered)"
  by (simp add: engine_eval)

lemma encodeMp3_returns:
  "channels b \<noteq> [] \<Longrightarrow> \<exists>blob. encodeMp3 P b = Inr blob"
  by (auto simp: encodeMp3_def Let_def split: list.splits prod.splits)

subsection \<open>The current tick\<close>

text \<open>
  Claim C10. \<open>getCurrentTick\<close> returns exactly 0 whenever no playback is active, that
  is when the audio context is not initialised or the playing flag is false, in every
  state of the engine. It returns a value in every state: none of its operations throws.
\<close>

theorem getCurrentTick_not_playing:
  "ctx s = None \<or> \<not> isPlaying s \<longrightarrow> getCurrentTick s = Num 0"
  by (simp add: getCurrentTick_def split: option.splits)

theorem getCurrentTick_not_playing_witness:
  "\<not> isPlaying example_engine \<and>
   getCurrentTick example_engine = Num 0 \<and>
   ctx (example_engine\<lparr>ctx := None, isPlaying := True\<rparr>) = None \<and>
   getCurrentTick (example_engine\<lparr>ctx := None, isPlaying := True\<rparr>) = Num 0 \<and>
   getCurrentTick (example_engine\<lparr>isPlaying := True\<rparr>) = Num 288"
proof -
  have h1: "\<not> isPlaying example_engine"
    and h2: "ctx (example_engine\<lparr>ctx := None, isPlaying := True\<rparr>) = None"
    by (simp_all add: example_engine_def)
  have p: "getCurrentTick (example_engine\<lparr>isPlaying := True\<rparr>) = Num 288"
    by (simp add: getCurrentTick_def example_engine_def js_minus_def)
  from getCurrentTick_not_playing[of example_engine] h1
  have a: "getCurrentTick example_engine = Num 0" by blast
  from getCurrentTick_not_playing[of "example_engine\<lparr>ctx := None, isPlaying := True\<rparr>"] h2
  have b: "getCurrentTick (example_engine\<lparr>ctx := None, isPlaying := True\<rparr>) = Num 0" by blast
  from h1 h2 a b p show ?thesis by blast
qed

subsection \<open>The exports and the speed multiplier\<close>

text \<open>
  Claim C5. What \<open>exportWav\<close> and \<open>exportMp3\<close> settle with does not depend on the
  speed multiplier of the engine: two states that differ in \<open>playbackSpeed\<close> only give the
  same result, which is computed from the render of the state whose multiplier is 1. The
  model runs each export from start to end: what other code does to the engine while
  the export awaits is not part of it.
\<close>

theorem export_speed_independent:
  "fst (exportWav P (s\<lparr>playbackSpeed := v\<rparr>)) = fst (exportWav P s) \<and>
   fst (exportMp3 P (s\<lparr>playbackSpeed := v\<rparr>)) = fst (exportMp3 P s) \<and>
   fst (exportWav P s) =
     (case fst (renderProjectToBuffer P (s\<lparr>playbackSpeed := Num 1\<rparr>)) of
        Inl e \<Rightarrow> Inl e
      | Inr buffer \<Rightarrow> Inr (map_option (\<lambda>b. bufferToWave b (frames b)) buffer)) \<and>
   fst (exportMp3 P s) =
     (case fst (renderProjectToBuffer P (s\<lparr>playbackSpeed := Num 1\<rparr>)) of
        Inl e \<Rightarrow> Inl e
      | Inr None \<Rightarrow> Inr None
      | Inr (Some b) \<Rightarrow> (case encodeMp3 P b of Inl e \<Rightarrow> Inl e | Inr blob \<Rightarrow> Inr (Some blob)))"
  by (simp add: exportWav_eq exportMp3_eq split: sum.splits option.splits)

text \<open>
  An export that returns. When \<open>exportWav\<close> or \<open>exportMp3\<close> settles with a value, the
  speed multiplier is the one the engine had at the call, whatever it was, and the engine
  is otherwise as the render left it; the render itself runs with the multiplier 1 and
  does not change it.
\<close>

lemma export_returned_speed:
  "(fst (exportWav P s) = Inr r \<longrightarrow>
      playbackSpeed (snd (exportWav P s)) = playbackSpeed s \<and>
      snd (exportWav P s) =
        (snd (renderProjectToBuffer P (s\<lparr>playbackSpeed := Num 1\<rparr>)))\<lparr>playbackSpeed := playbackSpeed s\<rparr>) \<and>
   (fst (exportMp3 P s) = Inr r' \<longrightarrow>
      playbackSpeed (snd (exportMp3 P s)) = playbackSpeed s \<and>
      snd (exportMp3 P s) =
        (snd (renderProjectToBuffer P (s\<lparr>playbackSpeed := Num 1\<rparr>)))\<lparr>playbackSpeed := playbackSpeed s\<rparr>) \<and>
   playbackSpeed (snd (renderProjectToBuffer P (s\<lparr>playbackSpeed := Num 1\<rparr>))) = Num 1"
  by (auto simp: exportWav_eq exportMp3_eq render_speed split: sum.splits option.splits)

lemma export_returned_example:
  "playbackSpeed example_engine = Num 2 \<and>
   fst (exportWav example_platform example_engine) =
     Inr (Some (bufferToWave example_rendered (frames example_rendered))) \<and>
   playbackSpeed (snd (exportWav example_platform example_engine)) = Num 2 \<and>
   (\<exists>blob. fst (exportMp3 example_platform example_engine) = Inr (Some blob)) \<and>
   playbackSpeed (snd (exportMp3 example_platform example_engine)) = Num 2"
proof -
  have sp: "playbackSpeed example_engine = Num 2"
    by (simp add: example_engine_def)
  have w: "fst (exportWav example_platform example_engine) =
      Inr (Some (bufferToWave example_rendered (frames example_rendered)))"
    by (simp add: exportWav_eq example_render)
  obtain blob where b: "encodeMp3 example_platform example_rendered = Inr blob"
    using encodeMp3_returns[of example_rendered example_platform]
    by (auto simp: example_rendered_def)
  then have m: "fst (exportMp3 example_platform example_engine) = Inr (Some blob)"
    by (simp add: exportMp3_eq example_render)
  from export_returned_speed[of example_platform example_engine
      "Some (bufferToWave example_rendered (frames example_rendered))" "Some blob"] w m
  have "playbackSpeed (snd (exportWav example_platform example_engine)) = playbackSpeed example_engine"
    and "playbackSpeed (snd (exportMp3 example_platform example_engine)) = playbackSpeed example_engine"
    by blast+
  with sp w m show ?thesis by auto
qed

text \<open>
  An export that rejects. The restoring statement follows the \<^verbatim>\<open>await\<close> and is not in a
  \<^verbatim>\<open>finally\<close>: when the render rejects, the export rejects with the same exception and
  the engine is as the render left it, with the multiplier 1 that the export wrote.
\<close>

lemma export_rejected_speed:
  assumes "fst (renderProjectToBuffer P (s\<lparr>playbackSpeed := Num 1\<rparr>)) = Inl e"
  shows "fst (exportWav P s) = Inl e \<and> playbackSpeed (snd (exportWav P s)) = Num 1 \<and>
         fst (exportMp3 P s) = Inl e \<and> playbackSpeed (snd (exportMp3 P s)) = Num 1"
  using assms by (simp add: exportWav_eq exportMp3_eq render_speed)

lemma export_rejected_state:
  assumes "fst (renderProjectToBuffer P (s\<lparr>playbackSpeed := Num 1\<rparr>)) = Inl e"
  shows "snd (exportWav P s) = snd (renderProjectToBuffer P (s\<lparr>playbackSpeed := Num 1\<rparr>)) \<and>
         snd (exportMp3 P s) = snd (renderProjectToBuffer P (s\<lparr>playbackSpeed := Num 1\<rparr>))"
  using assms by (simp add: exportWav_eq exportMp3_eq)

text \<open>
  Claim C9 on two engines whose speed multiplier is 2: the engine of the example after
  \<^verbatim>\<open>setBpm(0)\<close>, and the engine of the example with the notes parsed from the text
  \<open>constructor 1D\<close>, whose tick is not a number. The length of the render, the sample
  rate times the duration, is infinite for the first and not a number for the second;
  \<^verbatim>\<open>new OfflineAudioContext\<close> refuses it, so the render awaited on lines 437 and 447
  rejects and both exports reject there. The assignment \<^verbatim>\<open>this.playbackSpeed = savedSpeed\<close>
  of lines 438 and 448 does not run, and the engine is left with the multiplier 1.0 that
  lines 436 and 446 wrote, not with the 2 it had at the call.
\<close>

theorem export_rejected_leaves_speed_one:
  "playbackSpeed (example_engine\<lparr>bpm := Num 0\<rparr>) = Num 2 \<and>
   fst (exportWav example_platform (example_engine\<lparr>bpm := Num 0\<rparr>)) = Inl NotSupportedError \<and>
   playbackSpeed (snd (exportWav example_platform (example_engine\<lparr>bpm := Num 0\<rparr>))) = Num 1 \<and>
   fst (exportMp3 example_platform (example_engine\<lparr>bpm := Num 0\<rparr>)) = Inl NotSupportedError \<and>
   playbackSpeed (snd (exportMp3 example_platform (example_engine\<lparr>bpm := Num 0\<rparr>))) = Num 1 \<and>
   playbackSpeed (example_engine\<lparr>notes' := parseTablature uc (js ''constructor 1D'')\<rparr>) = Num 2 \<and>
   fst (exportWav example_platform
          (example_engine\<lparr>notes' := parseTablature uc (js ''constructor 1D'')\<rparr>)) =
     Inl NotSupportedError \<and>
   playbackSpeed (snd (exportWav example_platform
          (example_engine\<lparr>notes' := parseTablature uc (js ''constructor 1D'')\<rparr>))) = Num 1 \<and>
   fst (exportMp3 example_platform
          (example_engine\<lparr>notes' := parseTablature uc (js ''constructor 1D'')\<rparr>)) =
     Inl NotSupportedError \<and>
   playbackSpeed (snd (exportMp3 example_platform
          (example_engine\<lparr>notes' := parseTablature uc (js ''constructor 1D'')\<rparr>))) = Num 1"
proof -
  have zero: "fst (renderProjectToBuffer example_platform
               (example_engine\<lparr>bpm := Num 0, playbackSpeed := Num 1\<rparr>)) = Inl NotSupportedError"
    by (simp add: engine_eval)
  have nan: "fst (renderProjectToBuffer example_platform
               (example_engine\<lparr>notes' := parseTablature uc (js ''constructor 1D''),
                  playbackSpeed := Num 1\<rparr>)) = Inl NotSupportedError"
    by (simp add: engine_eval parser_eval)
  show ?thesis
    using export_rejected_speed[of example_platform "example_engine\<lparr>bpm := Num 0\<rparr>"
            NotSupportedError, simplified, OF zero]
          export_rejected_speed[of example_platform
            "example_engine\<lparr>notes' := parseTablature uc (js ''constructor 1D'')\<rparr>"
            NotSupportedError, simplified, OF nan]
    by (simp add: example_engine_def)
qed

subsection \<open>Determinism of the offline render\<close>



subsection \<open>The samples of the WAV export\<close>

lemma ceiling_example: "\<lceil>(- (32767 / 4) :: rat)\<rceil> = - 8191"
  by (rule ceiling_unique) simp_all

lemma truncate_examples:
  "js_truncate (- (32767 / 4)) = - 8191" "js_truncate (- 8192) = - 8192"
  unfolding js_truncate_def using ceiling_example by auto

lemma js_truncate_bounds:
  assumes "- of_int b \<le> y" "y \<le> of_int b" "0 \<le> b"
  shows "- b \<le> js_truncate y \<and> js_truncate y \<le> b"
proof (cases "0 \<le> y")
  case True
  then have f: "0 \<le> \<lfloor>y\<rfloor>" by simp
  have u: "\<lfloor>y\<rfloor> \<le> b" using assms(2) by (simp add: floor_le_iff)
  from f assms(3) have l: "- b \<le> \<lfloor>y\<rfloor>" by linarith
  from True have "js_truncate y = \<lfloor>y\<rfloor>" by (simp add: js_truncate_def)
  with l u show ?thesis by simp
next
  case False
  then have c: "\<lceil>y\<rceil> \<le> 0" by (simp add: ceiling_le_iff)
  have "of_int (- b) \<le> y" using assms(1) by simp
  also have "y \<le> of_int \<lceil>y\<rceil>" by (rule le_of_int_ceiling)
  finally have l: "- b \<le> \<lceil>y\<rceil>" by simp
  from c assms(3) have u: "\<lceil>y\<rceil> \<le> b" by linarith
  from False have "js_truncate y = \<lceil>y\<rceil>" by (simp add: js_truncate_def)
  with l u show ?thesis by simp
qed

lemma to_int32_small:
  assumes "- 32768 \<le> y" "y \<le> 32768"
  shows "to_int32 (Num y) = js_truncate y"
proof -
  have "- 32768 \<le> js_truncate y \<and> js_truncate y \<le> 32768"
    using js_truncate_bounds[of 32768 y] assms by simp
  then show ?thesis by simp
qed

lemma clamp_Num: "clamp (Num x) = Num (max (- 1) (min 1 x))"
  by (auto simp: clamp_def max_def min_def)

text \<open>
  What line 41 computes on a sample between -1 and 1: the factor is 32768 below
  \<open>-0.5\<close> only.
\<close>

lemma scale_sample_rule:
  assumes "- 1 \<le> x" "x \<le> 1"
  shows "scale_sample (Num x) =
           (if x < - (1 / 2) then js_truncate (x * 32768) else js_truncate (x * 32767))"
proof -
  have a: "- 32768 \<le> x * 32768" "x * 32768 \<le> 32768"
    and b: "- 32768 \<le> x * 32767" "x * 32767 \<le> 32768"
    using assms by simp_all
  show ?thesis
    using to_int32_small[OF a] to_int32_small[OF b]
    by (auto simp: scale_sample_def js_lt_def)
qed

text \<open>
  Claim C3 on the sample \<open>-0.25\<close>, which the clamp leaves as it is. The condition of
  line 41 is \<^verbatim>\<open>(0.5 + sample) < 0\<close>, false here, so the sample is scaled by 32767 and
  written as -8191 (the bytes 1 and 224), where the claim, and the same conversion in
  \<open>exportMp3\<close> (\<^verbatim>\<open>valLeft < 0\<close>), give the truncation of \<open>-0.25 \<times> 32768\<close>, -8192.
\<close>

theorem wav_quantization_threshold:
  "clamp (Num (- 1 / 4)) = Num (- 1 / 4) \<and>
   scale_sample (clamp (Num (- 1 / 4))) = - 8191 \<and>
   js_truncate (- 1 / 4 * 32768) = - 8192 \<and>
   mp3_sample (Num (- 1 / 4)) = - 8192 \<and>
   drop 44 (blob_bytes (bufferToWave
      \<lparr>sampleRate = Num 44100, frames = 1, channels = [[Num (- 1 / 4)]]\<rparr> 1)) = [1, 224]"
  by (simp add: clamp_def scale_sample_def mp3_sample_def js_lt_def truncate_examples
      bufferToWave_def numberOfChannels_def setUint32_def setUint16_def setInt16_def
      sample_at_def Let_def)

end
